theory Spec2Isabelle
  imports Main "HOL-Library.AList" "HOL-Library.Multiset"
begin

section \<open>The histogram caches of \<^verbatim>\<open>src/client/cache.ts\<close>\<close>

text \<open>
  The file defines an abstract class \<^verbatim>\<open>Cache\<close> and two strategies,
  \<^verbatim>\<open>SimpleCache\<close> (exact index) and \<^verbatim>\<open>SnappingCache\<close> (nearest stored index), with
  the shared arithmetic \<^verbatim>\<open>combineRanges\<close>.

  Conventions of the embedding.
  \<^item> A coordinate (\<^verbatim>\<open>index: number\<close>) and a bucket count are integers, as the data
    model has them; \<open>int\<close> is unbounded, so no rounding is modelled.
  \<^item> A snapshot is a value: every call of \<^verbatim>\<open>set\<close> is given an array of its own.
  \<^item> \<^verbatim>\<open>this.cache\<close> and the stores of a \<^verbatim>\<open>SimpleCache\<close> are plain objects. Their own
    properties are an association list in creation order; a property they do not own is
    looked up in \<^verbatim>\<open>Object.prototype\<close>, which is shared by all objects and is part of the
    state (the \<^emph>\<open>realm\<close>).
  \<^item> A \<^verbatim>\<open>throw\<close> is the value \<open>Inl\<close> of a sum; \<^verbatim>\<open>null\<close> is \<open>None\<close>.
  \<^item> \<^verbatim>\<open>console.error\<close> is modelled by the list of lines a call writes, returned next to
    its result.
  \<^item> Methods that mutate \<^verbatim>\<open>this\<close> take the cache and return the new one.
  \<^item> \<^verbatim>\<open>getDebugData\<close> takes no part in the statements below and is left out.
\<close>

subsection \<open>Data\<close>

type_synonym Interval = "int \<times> int"

type_synonym console = "string list"

text \<open>
  \<open>Error\<close> is the error \<^verbatim>\<open>combineRanges\<close> throws and \<open>TypeError\<close> the one the language
  throws on a property read of \<^verbatim>\<open>undefined\<close> or a call of a non-function. \<open>Untyped\<close> is
  not thrown: it marks the places where the code goes on with a value that is not of the
  type declared for it (a number for a snapshot, a snapshot for a store entry, an array
  with an array or an entry among its numbers), which has no counterpart among the values
  here; what the call does from there is not followed, nor what its callers do, which pass
  \<open>Untyped\<close> on like an error.
\<close>

datatype error = Error string | TypeError | Untyped

text \<open>What a call yields: the value returned or the error thrown, and the lines logged.\<close>

type_synonym 'a outcome = "(error + 'a) \<times> console"

text \<open>\<^verbatim>\<open>{ index: number, data: number[] }\<close>, an element of a snapping store.\<close>

record entry =
  index :: int
  data :: "int list"

text \<open>\<^verbatim>\<open>{data: number[], range: Interval}\<close>, the result of \<^verbatim>\<open>getCombined\<close>.\<close>

record Combined =
  cdata :: "int list"
  crange :: Interval

text \<open>\<^verbatim>\<open>{dimension, data, range}\<close>, an element of the result of \<^verbatim>\<open>getAllCombined\<close>.\<close>

record DimCombined = Combined +
  dimension :: string

subsection \<open>The realm: \<^verbatim>\<open>Object.prototype\<close> and its members\<close>

text \<open>
  The properties of \<^verbatim>\<open>Object.prototype\<close> that the language defines: the accessor
  \<^verbatim>\<open>__proto__\<close>, which on a plain object returns \<^verbatim>\<open>Object.prototype\<close> itself, and eleven
  functions, here with their \<^verbatim>\<open>length\<close>.
\<close>

definition function_members :: "(string \<times> nat) list" where
  "function_members =
     [(''constructor'', 1), (''__defineGetter__'', 2), (''__defineSetter__'', 2),
      (''hasOwnProperty'', 1), (''__lookupGetter__'', 1), (''__lookupSetter__'', 1),
      (''isPrototypeOf'', 1), (''propertyIsEnumerable'', 1), (''toString'', 0),
      (''valueOf'', 0), (''toLocaleString'', 0)]"

text \<open>
  What the code can add to them. The writes of \<^verbatim>\<open>cache.ts\<close> that can reach the realm are
  \<^verbatim>\<open>this.cache[dimension][index] = data\<close> of \<^verbatim>\<open>SimpleCache.set\<close> and
  \<^verbatim>\<open>this.cache[dimension].push(...)\<close> and \<^verbatim>\<open>.sort(...)\<close> of \<^verbatim>\<open>SnappingCache.set\<close>, when
  \<^verbatim>\<open>this.cache[dimension]\<close> is inherited. The property the first one writes is the
  coordinate.
  \<^item> \<open>prototype r k = Some (elements, props)\<close>: \<^verbatim>\<open>Object.prototype[k]\<close> is an array, the
    snapshot written through the dimension \<^verbatim>\<open>__proto__\<close>. \<open>elements = Some a\<close> when it
    still holds the numbers \<open>a\<close> of that snapshot, and \<open>None\<close> once a snapping cache has
    pushed an entry onto it and sorted it (through a dimension whose name is the numeral
    of \<open>k\<close>): what it holds from then on, and in which order, is not followed. \<open>props\<close>
    are the properties written onto the array since (by \<^verbatim>\<open>SimpleCache.set\<close>, through such
    a dimension).
  \<^item> \<open>members r f k = Some a\<close>: the member function named \<open>f\<close> has the property \<open>k\<close>,
    the snapshot \<open>a\<close>.
\<close>

record realm =
  prototype :: "int \<rightharpoonup> int list option \<times> (int \<times> int list) list"
  members :: "string \<Rightarrow> int \<rightharpoonup> int list"

text \<open>The realm as the language sets it up.\<close>

definition realm0 :: realm where
  "realm0 = \<lparr>prototype = Map.empty, members = (\<lambda>f. Map.empty)\<rparr>"

text \<open>
  The property key of an integer is its decimal numeral (\<^verbatim>\<open>ToString\<close>, below \<open>10\<^sup>2\<^sup>1\<close> in
  magnitude): \<open>canonical_int\<close> reads a key back. An array index is the numeral of a
  natural number up to \<open>2\<^sup>3\<^sup>2 - 2\<close>.
\<close>

definition digits :: "(char \<times> int) list" where
  "digits =
     [(CHR ''0'', 0), (CHR ''1'', 1), (CHR ''2'', 2), (CHR ''3'', 3), (CHR ''4'', 4),
      (CHR ''5'', 5), (CHR ''6'', 6), (CHR ''7'', 7), (CHR ''8'', 8), (CHR ''9'', 9)]"

fun decimal :: "int \<Rightarrow> string \<Rightarrow> int option" where
  "decimal n [] = Some n"
| "decimal n (c # cs) =
     (case map_of digits c of
        None \<Rightarrow> None
      | Some v \<Rightarrow> decimal (10 * n + v) cs)"

definition canonical_nat :: "string \<Rightarrow> int option" where
  "canonical_nat s =
     (if s = [] \<or> (hd s = CHR ''0'' \<and> tl s \<noteq> []) then None
      else (case decimal 0 s of
              None \<Rightarrow> None
            | Some n \<Rightarrow> if n < 10 ^ 21 then Some n else None))"

definition canonical_int :: "string \<Rightarrow> int option" where
  "canonical_int s =
     (if s \<noteq> [] \<and> hd s = CHR ''-'' then
        (case canonical_nat (tl s) of
           None \<Rightarrow> None
         | Some n \<Rightarrow> if n = 0 then None else Some (- n))
      else canonical_nat s)"

definition array_index :: "string \<Rightarrow> int option" where
  "array_index s =
     (case canonical_nat s of
        None \<Rightarrow> None
      | Some n \<Rightarrow> if n \<le> 4294967294 then Some n else None)"

text \<open>
  \<^verbatim>\<open>Object.keys\<close> of an object whose own keys, in creation order, are \<open>ks\<close>: the array
  indices in ascending order, then the other keys in creation order.
\<close>

definition Object_keys :: "string list \<Rightarrow> string list" where
  "Object_keys ks =
     map snd (sort_key fst
       (List.map_filter (\<lambda>k. case array_index k of None \<Rightarrow> None | Some n \<Rightarrow> Some (n, k)) ks))
     @ filter (\<lambda>k. array_index k = None) ks"

text \<open>
  What \<^verbatim>\<open>this.cache[dimension]\<close> evaluates to: a store the cache owns; or, inherited,
  \<^verbatim>\<open>Object.prototype\<close> (for \<^verbatim>\<open>__proto__\<close>), a member function (with its \<^verbatim>\<open>length\<close>), or a
  snapshot that was written onto \<^verbatim>\<open>Object.prototype\<close> (with the properties written onto
  it since); or \<^verbatim>\<open>undefined\<close>.
\<close>

datatype 'store slot =
    OwnStore 'store
  | TheObjectPrototype
  | MemberFunction string nat
  | InheritedSnapshot int "int list option" "(int \<times> int list) list"
  | NoProperty

definition property :: "realm \<Rightarrow> (string \<times> 'store) list \<Rightarrow> string \<Rightarrow> 'store slot" where
  "property r own dim =
     (case map_of own dim of
        Some store \<Rightarrow> OwnStore store
      | None \<Rightarrow>
          if dim = ''__proto__'' then TheObjectPrototype
          else
            (case map_of function_members dim of
               Some n \<Rightarrow> MemberFunction dim n
             | None \<Rightarrow>
                 (case canonical_int dim of
                    None \<Rightarrow> NoProperty
                  | Some k \<Rightarrow>
                      (case prototype r k of
                         None \<Rightarrow> NoProperty
                       | Some (elements, props) \<Rightarrow> InheritedSnapshot k elements props))))"

text \<open>
  \<^verbatim>\<open>Object.prototype[index]\<close> read as a snapshot, by an object that does not own the
  property. An array that had an index property written onto it holds an array among its
  elements, and one that had an entry pushed onto it holds an entry.
\<close>

definition inherited_snapshot :: "realm \<Rightarrow> int \<Rightarrow> error + int list option" where
  "inherited_snapshot r idx =
     (case prototype r idx of
        None \<Rightarrow> Inr None
      | Some (None, props) \<Rightarrow> Inl Untyped
      | Some (Some a, props) \<Rightarrow>
          if list_ex (\<lambda>(k, v). 0 \<le> k) props then Inl Untyped else Inr (Some a))"

subsection \<open>The abstract class\<close>

text \<open>
  The fields of \<^verbatim>\<open>Cache\<close>, with the realm the object lives in. The type of a
  dimension's store is left to the subclass, as the abstract field \<^verbatim>\<open>cache\<close> is; \<open>cache\<close>
  holds the own properties of \<^verbatim>\<open>this.cache\<close>.
\<close>

record 'store Cache =
  dimensions :: "string list"
  cache :: "(string \<times> 'store) list"
  realm :: realm

type_synonym SimpleCache = "(int \<rightharpoonup> int list) Cache"

type_synonym SnappingCache = "entry list Cache"

text \<open>The constructor, called in the realm \<open>r\<close>; the field initialiser sets \<^verbatim>\<open>cache = {}\<close>.\<close>

definition Cache_new :: "realm \<Rightarrow> string list \<Rightarrow> 'store Cache" where
  "Cache_new r dims = \<lparr>dimensions = dims, cache = [], realm = r\<rparr>"

definition getDimensions :: "'store Cache \<Rightarrow> string list" where
  "getDimensions c = Object_keys (map fst (cache c))"

definition invalidate :: "'store Cache \<Rightarrow> 'store Cache" where
  "invalidate c = c\<lparr>cache := []\<rparr>"

text \<open>
  \<^verbatim>\<open>getDimensions().map(dimension => ...)\<close>: the callback runs on the dimensions from left
  to right; a throw inside it ends the call, after the lines logged so far. The abstract
  method \<^verbatim>\<open>getCombined(start, end, .)\<close> is the parameter \<open>gc\<close>.
\<close>

fun getAllCombined_map ::
  "(string \<Rightarrow> Combined option outcome) \<Rightarrow> string list \<Rightarrow> DimCombined option list outcome" where
  "getAllCombined_map gc [] = (Inr [], [])"
| "getAllCombined_map gc (d # ds) =
     (case gc d of
        (Inl e, out) \<Rightarrow> (Inl e, out)
      | (Inr result, out) \<Rightarrow>
          (case getAllCombined_map gc ds of
             (Inl e, out') \<Rightarrow> (Inl e, out @ out')
           | (Inr rs, out') \<Rightarrow>
               (Inr ((case result of
                        None \<Rightarrow> None
                      | Some r \<Rightarrow> Some \<lparr>cdata = cdata r, crange = crange r, dimension = d\<rparr>) # rs),
                out @ out')))"

text \<open>\<^verbatim>\<open>.filter(d => d)\<close> drops the \<^verbatim>\<open>undefined\<close> elements.\<close>

definition getAllCombined ::
  "(string \<Rightarrow> Combined option outcome) \<Rightarrow> 'store Cache \<Rightarrow> DimCombined list outcome" where
  "getAllCombined gc c =
     (case getAllCombined_map gc (getDimensions c) of
        (Inl e, out) \<Rightarrow> (Inl e, out)
      | (Inr rs, out) \<Rightarrow> (Inr (List.map_filter (\<lambda>r. r) rs), out))"

subsection \<open>combineRanges\<close>

text \<open>
  The loop of \<^verbatim>\<open>combineRanges\<close>. \<open>dat\<close> has \<open>bucket\<close> elements when the body runs, so
  the assignment \<^verbatim>\<open>data[bucket] = ...\<close> appends.
\<close>

function combineRanges_loop ::
  "int list \<Rightarrow> int list \<Rightarrow> nat \<Rightarrow> int list \<Rightarrow> console \<Rightarrow> int list \<times> console" where
  "combineRanges_loop low high bucket dat out =
     (if bucket < length low then
        let v = high ! bucket - low ! bucket;
            out' = (if v < 0 then out @ [''Invalid data.''] else out)
        in combineRanges_loop low high (bucket + 1) (dat @ [v]) out'
      else (dat, out))"
  by pat_completeness auto
termination
  by (relation "measure (\<lambda>(low, high, bucket, dat, out). length low - bucket)") auto

declare combineRanges_loop.simps [simp del]

definition combineRanges :: "int list \<Rightarrow> int list \<Rightarrow> int list outcome" where
  "combineRanges low high =
     (if length low \<noteq> length high
      then (Inl (Error ''low and high have to have the same length''), [])
      else (case combineRanges_loop low high 0 [] [] of (dat, out) \<Rightarrow> (Inr dat, out)))"

subsection \<open>SimpleCache\<close>

text \<open>
  A dimension's store is the object \<^verbatim>\<open>{ [index: number]: number[] }\<close>.

  \<^verbatim>\<open>set\<close>: \<^verbatim>\<open>dimension in this.cache\<close> holds for an own and for an inherited property, so a
  store is created only when \<^verbatim>\<open>this.cache[dimension]\<close> is \<^verbatim>\<open>undefined\<close>; then
  \<^verbatim>\<open>this.cache[dimension][index] = data\<close> writes the property \<open>index\<close> onto whatever
  \<^verbatim>\<open>this.cache[dimension]\<close> is: the store, \<^verbatim>\<open>Object.prototype\<close>, a member function, or an
  inherited snapshot array.
\<close>

definition SimpleCache_set :: "int \<Rightarrow> string \<Rightarrow> int list \<Rightarrow> SimpleCache \<Rightarrow> SimpleCache" where
  "SimpleCache_set idx dim dat c =
     (case property (realm c) (cache c) dim of
        NoProperty \<Rightarrow>
          c\<lparr>cache := AList.update dim (Map.empty(idx \<mapsto> dat)) (cache c)\<rparr>
      | OwnStore entry \<Rightarrow>
          c\<lparr>cache := AList.update dim (entry(idx \<mapsto> dat)) (cache c)\<rparr>
      | TheObjectPrototype \<Rightarrow>
          c\<lparr>realm := (realm c)\<lparr>prototype := (prototype (realm c))(idx \<mapsto> (Some dat, []))\<rparr>\<rparr>
      | MemberFunction f n \<Rightarrow>
          c\<lparr>realm := (realm c)\<lparr>members :=
               (members (realm c))(f := (members (realm c) f)(idx \<mapsto> dat))\<rparr>\<rparr>
      | InheritedSnapshot k elements props \<Rightarrow>
          c\<lparr>realm := (realm c)\<lparr>prototype :=
               (prototype (realm c))(k \<mapsto> (elements, AList.update idx dat props))\<rparr>\<rparr>)"

text \<open>
  \<^verbatim>\<open>get\<close>: \<^verbatim>\<open>entry[index]\<close> is an own property of \<^verbatim>\<open>entry\<close> or, failing that, the
  property of \<^verbatim>\<open>Object.prototype\<close>. A snapshot is an array, which is truthy, so
  \<^verbatim>\<open>entry[index] || null\<close> is it. When \<^verbatim>\<open>entry\<close> is an inherited snapshot array,
  \<^verbatim>\<open>entry[index]\<close> is the snapshot written there since, if there is one, and otherwise
  can be one of the array's numbers: \<open>0\<close> is falsy and gives \<^verbatim>\<open>null\<close>, another number is
  returned where a snapshot is declared.
\<close>

definition SimpleCache_get :: "int \<Rightarrow> string \<Rightarrow> SimpleCache \<Rightarrow> error + int list option" where
  "SimpleCache_get idx dim c =
     (case property (realm c) (cache c) dim of
        NoProperty \<Rightarrow> Inr None
      | OwnStore entry \<Rightarrow>
          (case entry idx of
             Some s \<Rightarrow> Inr (Some s)
           | None \<Rightarrow> inherited_snapshot (realm c) idx)
      | TheObjectPrototype \<Rightarrow> inherited_snapshot (realm c) idx
      | MemberFunction f n \<Rightarrow>
          (case members (realm c) f idx of
             Some s \<Rightarrow> Inr (Some s)
           | None \<Rightarrow> inherited_snapshot (realm c) idx)
      | InheritedSnapshot k elements props \<Rightarrow>
          (case map_of props idx of
             Some s \<Rightarrow> Inr (Some s)
           | None \<Rightarrow>
               (case elements of
                  None \<Rightarrow> Inl Untyped
                | Some a \<Rightarrow>
                    if 0 \<le> idx \<and> idx < int (length a)
                    then (if a ! nat idx = 0 then Inr None else Inl Untyped)
                    else inherited_snapshot (realm c) idx)))"

definition SimpleCache_getCombined ::
  "int \<Rightarrow> int \<Rightarrow> string \<Rightarrow> SimpleCache \<Rightarrow> Combined option outcome" where
  "SimpleCache_getCombined start stop dim c =
     (case SimpleCache_get start dim c of
        Inl e \<Rightarrow> (Inl e, [])
      | Inr None \<Rightarrow> (Inr None, [])
      | Inr (Some low) \<Rightarrow>
          (case SimpleCache_get stop dim c of
             Inl e \<Rightarrow> (Inl e, [])
           | Inr None \<Rightarrow> (Inr None, [])
           | Inr (Some high) \<Rightarrow>
               (case combineRanges low high of
                  (Inl e, out) \<Rightarrow> (Inl e, out)
                | (Inr dat, out) \<Rightarrow> (Inr (Some \<lparr>cdata = dat, crange = (start, stop)\<rparr>), out))))"

fun SimpleCache_hasFullData_loop :: "int \<Rightarrow> string list \<Rightarrow> SimpleCache \<Rightarrow> error + bool" where
  "SimpleCache_hasFullData_loop idx [] c = Inr True"
| "SimpleCache_hasFullData_loop idx (dim # dims) c =
     (case SimpleCache_get idx dim c of
        Inl e \<Rightarrow> Inl e
      | Inr None \<Rightarrow> Inr False
      | Inr (Some s) \<Rightarrow> SimpleCache_hasFullData_loop idx dims c)"

definition SimpleCache_hasFullData :: "int \<Rightarrow> SimpleCache \<Rightarrow> error + bool" where
  "SimpleCache_hasFullData idx c = SimpleCache_hasFullData_loop idx (dimensions c) c"

definition SimpleCache_getAllCombined ::
  "int \<Rightarrow> int \<Rightarrow> SimpleCache \<Rightarrow> DimCombined list outcome" where
  "SimpleCache_getAllCombined start stop c =
     getAllCombined (\<lambda>dim. SimpleCache_getCombined start stop dim c) c"

subsection \<open>SnappingCache\<close>

text \<open>
  A dimension's store is an array of entries. \<^verbatim>\<open>sort\<close> with the comparator
  \<^verbatim>\<open>ascending(x.index, y.index)\<close> is the stable sort by \<open>index\<close>.

  \<^verbatim>\<open>set\<close>: \<^verbatim>\<open>!this.cache[dimension]\<close> is false for an own store and for every inherited
  value, so a store is created only when \<^verbatim>\<open>this.cache[dimension]\<close> is \<^verbatim>\<open>undefined\<close>.
  \<^verbatim>\<open>Object.prototype\<close> and the member functions have no \<^verbatim>\<open>push\<close>: the call throws before
  anything is written. An inherited snapshot array has one: the entry lands among its
  elements, which the sort then reorders (the comparator reads \<^verbatim>\<open>index\<close> of numbers and
  of snapshots, which is \<^verbatim>\<open>undefined\<close>, and the order that comes of it is left to the
  implementation); the call returns, and the cache's own properties are as they were.
\<close>

definition SnappingCache_set ::
  "int \<Rightarrow> string \<Rightarrow> int list \<Rightarrow> SnappingCache \<Rightarrow> error + SnappingCache" where
  "SnappingCache_set idx dim dat c =
     (case property (realm c) (cache c) dim of
        NoProperty \<Rightarrow>
          Inr (c\<lparr>cache := AList.update dim
                 (sort_key index ([] @ [\<lparr>index = idx, data = dat\<rparr>])) (cache c)\<rparr>)
      | OwnStore xs \<Rightarrow>
          Inr (c\<lparr>cache := AList.update dim
                 (sort_key index (xs @ [\<lparr>index = idx, data = dat\<rparr>])) (cache c)\<rparr>)
      | TheObjectPrototype \<Rightarrow> Inl TypeError
      | MemberFunction f n \<Rightarrow> Inl TypeError
      | InheritedSnapshot k elements props \<Rightarrow>
          Inr (c\<lparr>realm := (realm c)\<lparr>prototype := (prototype (realm c))(k \<mapsto> (None, []))\<rparr>\<rparr>))"

text \<open>
  The binary search of \<^verbatim>\<open>get\<close>. \<open>lo\<close> and \<open>hi\<close> are array positions with \<open>lo \<le> hi\<close>
  throughout, so the difference \<^verbatim>\<open>hi - lo\<close> is taken on naturals.
\<close>

function SnappingCache_search :: "entry list \<Rightarrow> int \<Rightarrow> nat \<Rightarrow> nat \<Rightarrow> nat \<times> nat" where
  "SnappingCache_search xs target lo hi =
     (if hi - lo > 1 then
        let mid = (lo + hi) div 2
        in if index (xs ! mid) < target
           then SnappingCache_search xs target mid hi
           else SnappingCache_search xs target lo mid
      else (lo, hi))"
  by pat_completeness auto
termination
  by (relation "measure (\<lambda>(xs, target, lo, hi). hi - lo)") auto

declare SnappingCache_search.simps [simp del]

text \<open>
  \<^verbatim>\<open>get\<close>, with \<^verbatim>\<open>data = this.cache[dimension]\<close>.
  \<^item> \<^verbatim>\<open>Object.prototype\<close> has no \<^verbatim>\<open>length\<close>: the guard passes, \<open>hi\<close> is \<^verbatim>\<open>NaN\<close>, the loop does
    not run, and \<^verbatim>\<open>data[hi]\<close> is \<^verbatim>\<open>undefined\<close>, so \<^verbatim>\<open>data[hi].index\<close> throws (if
    \<^verbatim>\<open>data[lo].index\<close> did not).
  \<^item> A member function of length \<open>0\<close> gives \<^verbatim>\<open>null\<close>. One of length \<open>n\<close>, which is \<open>1\<close>
    or \<open>2\<close>, passes the guard and the loop does not run, with \<open>lo = 0\<close> and
    \<open>hi = n - 1\<close>; \<^verbatim>\<open>data[lo]\<close> and \<^verbatim>\<open>data[hi]\<close> are \<^verbatim>\<open>undefined\<close> (and reading \<^verbatim>\<open>.index\<close>
    throws) unless something was written there, through the function or through
    \<^verbatim>\<open>Object.prototype\<close>; what was written is then read as an entry.
  \<^item> An inherited snapshot array of length \<open>0\<close> gives \<^verbatim>\<open>null\<close>; otherwise its elements are
    read as entries.
\<close>

definition SnappingCache_get :: "int \<Rightarrow> string \<Rightarrow> SnappingCache \<Rightarrow> error + entry option" where
  "SnappingCache_get target dim c =
     (case property (realm c) (cache c) dim of
        NoProperty \<Rightarrow> Inr None
      | OwnStore xs \<Rightarrow>
          if length xs = 0 then Inr None
          else
            (case SnappingCache_search xs target 0 (length xs - 1) of
               (lo, hi) \<Rightarrow>
                 let loIsCloser = (target - index (xs ! lo) \<le> index (xs ! hi) - target);
                     closest = (if loIsCloser then xs ! lo else xs ! hi)
                 in Inr (Some \<lparr>index = index closest, data = data closest\<rparr>))
      | TheObjectPrototype \<Rightarrow> Inl TypeError
      | MemberFunction f n \<Rightarrow>
          if n = 0 then Inr None
          else if list_ex (\<lambda>i. members (realm c) f i = None \<and> prototype (realm c) i = None)
                    [0, int n - 1]
          then Inl TypeError
          else Inl Untyped
      | InheritedSnapshot k elements props \<Rightarrow>
          if elements = Some [] \<and> \<not> list_ex (\<lambda>(k, v). 0 \<le> k) props then Inr None
          else Inl Untyped)"

definition SnappingCache_getCombined ::
  "int \<Rightarrow> int \<Rightarrow> string \<Rightarrow> SnappingCache \<Rightarrow> Combined option outcome" where
  "SnappingCache_getCombined start stop dim c =
     (case SnappingCache_get start dim c of
        Inl e \<Rightarrow> (Inl e, [])
      | Inr None \<Rightarrow> (Inr None, [])
      | Inr (Some low) \<Rightarrow>
          (case SnappingCache_get stop dim c of
             Inl e \<Rightarrow> (Inl e, [])
           | Inr None \<Rightarrow> (Inr None, [])
           | Inr (Some high) \<Rightarrow>
               if index high > index low then
                 (case combineRanges (data low) (data high) of
                    (Inl e, out) \<Rightarrow> (Inl e, out)
                  | (Inr dat, out) \<Rightarrow>
                      (Inr (Some \<lparr>cdata = dat, crange = (index low, index high)\<rparr>), out))
               else (Inr None, [])))"

fun SnappingCache_hasFullData_loop ::
  "int \<Rightarrow> string list \<Rightarrow> SnappingCache \<Rightarrow> error + bool" where
  "SnappingCache_hasFullData_loop idx [] c = Inr True"
| "SnappingCache_hasFullData_loop idx (dim # dims) c =
     (case SnappingCache_get idx dim c of
        Inl e \<Rightarrow> Inl e
      | Inr None \<Rightarrow> Inr False
      | Inr (Some item) \<Rightarrow>
          if index item \<noteq> idx then Inr False
          else SnappingCache_hasFullData_loop idx dims c)"

definition SnappingCache_hasFullData :: "int \<Rightarrow> SnappingCache \<Rightarrow> error + bool" where
  "SnappingCache_hasFullData idx c = SnappingCache_hasFullData_loop idx (dimensions c) c"

definition SnappingCache_getAllCombined ::
  "int \<Rightarrow> int \<Rightarrow> SnappingCache \<Rightarrow> DimCombined list outcome" where
  "SnappingCache_getAllCombined start stop c =
     getAllCombined (\<lambda>dim. SnappingCache_getCombined start stop dim c) c"

subsection \<open>Histories of calls\<close>

text \<open>
  The mutating calls a client can make on a cache, and the cache they leave when made in
  order on a cache newly made in the realm \<open>r\<close>. A \<^verbatim>\<open>set\<close> of the snapping cache that
  throws has written nothing, and the cache goes on as it was.
\<close>

datatype call = Set int string "int list" | Invalidate

fun SimpleCache_call :: "SimpleCache \<Rightarrow> call \<Rightarrow> SimpleCache" where
  "SimpleCache_call c (Set idx dim dat) = SimpleCache_set idx dim dat c"
| "SimpleCache_call c Invalidate = invalidate c"

fun SnappingCache_call :: "SnappingCache \<Rightarrow> call \<Rightarrow> SnappingCache" where
  "SnappingCache_call c (Set idx dim dat) =
     (case SnappingCache_set idx dim dat c of Inl e \<Rightarrow> c | Inr c' \<Rightarrow> c')"
| "SnappingCache_call c Invalidate = invalidate c"

definition SimpleCache_after :: "realm \<Rightarrow> string list \<Rightarrow> call list \<Rightarrow> SimpleCache" where
  "SimpleCache_after r dims calls = foldl SimpleCache_call (Cache_new r dims) calls"

definition SnappingCache_after :: "realm \<Rightarrow> string list \<Rightarrow> call list \<Rightarrow> SnappingCache" where
  "SnappingCache_after r dims calls = foldl SnappingCache_call (Cache_new r dims) calls"

text \<open>The entries the cache stores for a dimension (none when it owns no such store).\<close>

definition SnappingCache_store :: "SnappingCache \<Rightarrow> string \<Rightarrow> entry list" where
  "SnappingCache_store c dim = (case map_of (cache c) dim of None \<Rightarrow> [] | Some xs \<Rightarrow> xs)"

subsection \<open>Vocabulary of the statements\<close>

text \<open>
  The names every plain object of the realm inherits a property under: those the
  language defines, and the numerals of the coordinates written onto
  \<^verbatim>\<open>Object.prototype\<close>.
\<close>

definition inherited :: "realm \<Rightarrow> string \<Rightarrow> bool" where
  "inherited r dim \<longleftrightarrow>
     dim = ''__proto__'' \<or> map_of function_members dim \<noteq> None \<or>
     (case canonical_int dim of None \<Rightarrow> False | Some k \<Rightarrow> prototype r k \<noteq> None)"

text \<open>The snapshot the cache itself stores at a coordinate of a dimension.\<close>

definition SimpleCache_stored :: "SimpleCache \<Rightarrow> string \<Rightarrow> int \<Rightarrow> int list option" where
  "SimpleCache_stored c dim idx =
     (case map_of (cache c) dim of None \<Rightarrow> None | Some entry \<Rightarrow> entry idx)"

text \<open>
  The calls of a history that still count: those made after the last \<^verbatim>\<open>invalidate\<close>.
\<close>

definition live_calls :: "call list \<Rightarrow> call list" where
  "live_calls calls =
     foldl (\<lambda>acc c. case c of Invalidate \<Rightarrow> [] | Set idx dim dat \<Rightarrow> acc @ [c]) [] calls"

text \<open>
  The dimensions of the live calls, each at the place of its first \<^verbatim>\<open>set\<close>.
\<close>

definition first_set_order :: "call list \<Rightarrow> string list" where
  "first_set_order calls =
     foldl (\<lambda>acc c. case c of
                      Invalidate \<Rightarrow> []
                    | Set idx dim dat \<Rightarrow> if dim \<in> set acc then acc else acc @ [dim]) [] calls"

text \<open>
  The snapshot of the last live \<^verbatim>\<open>set\<close> at a coordinate and dimension, if there is one.
\<close>

definition last_set :: "call list \<Rightarrow> int \<Rightarrow> string \<Rightarrow> int list option" where
  "last_set calls i d =
     foldl (\<lambda>acc c. case c of
                      Invalidate \<Rightarrow> None
                    | Set idx dim dat \<Rightarrow> if idx = i \<and> dim = d then Some dat else acc) None calls"

text \<open>The dimensions a history names in a \<^verbatim>\<open>set\<close>.\<close>

definition dimensions_of :: "call list \<Rightarrow> string list" where
  "dimensions_of calls =
     concat (map (\<lambda>c. case c of Invalidate \<Rightarrow> [] | Set idx dim dat \<Rightarrow> [dim]) calls)"


section \<open>Properties\<close>

subsection \<open>Histories and property lookup\<close>


lemma live_calls_simps [simp]:
  "live_calls [] = []"
  "live_calls (calls @ [Invalidate]) = []"
  "live_calls (calls @ [Set i d s]) = live_calls calls @ [Set i d s]"
  by (simp_all add: live_calls_def)

lemma first_set_order_simps [simp]:
  "first_set_order [] = []"
  "first_set_order (calls @ [Invalidate]) = []"
  "first_set_order (calls @ [Set i d s]) =
     (if d \<in> set (first_set_order calls) then first_set_order calls
      else first_set_order calls @ [d])"
  by (simp_all add: first_set_order_def)

lemma last_set_simps [simp]:
  "last_set [] i d = None"
  "last_set (calls @ [Invalidate]) i d = None"
  "last_set (calls @ [Set i' d' s]) i d = (if i' = i \<and> d' = d then Some s else last_set calls i d)"
  by (simp_all add: last_set_def)

lemma dimensions_of_simps [simp]:
  "dimensions_of [] = []"
  "dimensions_of (calls @ [Invalidate]) = dimensions_of calls"
  "dimensions_of (calls @ [Set i d s]) = dimensions_of calls @ [d]"
  by (simp_all add: dimensions_of_def)

lemma SimpleCache_after_simps [simp]:
  "SimpleCache_after r dims [] = Cache_new r dims"
  "SimpleCache_after r dims (calls @ [Invalidate]) = invalidate (SimpleCache_after r dims calls)"
  "SimpleCache_after r dims (calls @ [Set i d s]) =
     SimpleCache_set i d s (SimpleCache_after r dims calls)"
  by (simp_all add: SimpleCache_after_def)

lemma SnappingCache_after_simps [simp]:
  "SnappingCache_after r dims [] = Cache_new r dims"
  "SnappingCache_after r dims (calls @ [Invalidate]) =
     invalidate (SnappingCache_after r dims calls)"
  "SnappingCache_after r dims (calls @ [Set i d s]) =
     (case SnappingCache_set i d s (SnappingCache_after r dims calls) of
        Inl e \<Rightarrow> SnappingCache_after r dims calls
      | Inr c' \<Rightarrow> c')"
  by (simp_all add: SnappingCache_after_def split: sum.splits)

text \<open>Induction on a history, by its last call.\<close>

lemma calls_induct [case_names Nil Invalidate Set]:
  assumes "P []"
    and "\<And>calls. P calls \<Longrightarrow> P (calls @ [Invalidate])"
    and "\<And>calls i d s. P calls \<Longrightarrow> P (calls @ [Set i d s])"
  shows "P calls"
proof (induction calls rule: rev_induct)
  case Nil
  show ?case by fact
next
  case (snoc c calls)
  then show ?case using assms(2,3) by (cases c) auto
qed

subsection \<open>Property lookup\<close>

lemma property_own [simp]:
  "map_of own d = Some st \<Longrightarrow> property r own d = OwnStore st"
  by (simp add: property_def)

lemma property_OwnStore_iff:
  "property r own d = OwnStore st \<longleftrightarrow> map_of own d = Some st"
  by (auto simp: property_def split: option.splits)

lemma property_plain:
  "map_of own d = None \<Longrightarrow> \<not> inherited r d \<Longrightarrow> property r own d = NoProperty"
  by (auto simp: property_def inherited_def split: option.splits)

lemma property_inherited:
  "map_of own d = None \<Longrightarrow> inherited r d \<Longrightarrow>
   property r own d \<noteq> NoProperty \<and> (\<forall>st. property r own d \<noteq> OwnStore st)"
  by (auto simp: property_def inherited_def split: option.splits)

lemma property_NoProperty_iff:
  "property r own d = NoProperty \<longleftrightarrow> map_of own d = None \<and> \<not> inherited r d"
  by (auto simp: property_def inherited_def split: option.splits)

lemma field_simps_Cache [simp]:
  "dimensions (Cache_new r dims) = dims"
  "cache (Cache_new r dims) = []"
  "realm (Cache_new r dims) = r"
  "dimensions (invalidate c) = dimensions c"
  "cache (invalidate c) = []"
  "realm (invalidate c) = realm c"
  by (simp_all add: Cache_new_def invalidate_def)

lemma dimensions_SimpleCache_set [simp]:
  "dimensions (SimpleCache_set i d s c) = dimensions c"
  by (simp add: SimpleCache_set_def split: slot.splits)

lemma SnappingCache_set_fields:
  "SnappingCache_set i d s c = Inr c' \<Longrightarrow> dimensions c' = dimensions c"
  by (auto simp: SnappingCache_set_def split: slot.splits)

lemma dimensions_SimpleCache_after [simp]: "dimensions (SimpleCache_after r dims calls) = dims"
  by (induction calls rule: calls_induct) simp_all

lemma dimensions_SnappingCache_after [simp]:
  "dimensions (SnappingCache_after r dims calls) = dims"
  by (induction calls rule: calls_induct) (auto split: sum.splits dest: SnappingCache_set_fields)

subsection \<open>SimpleCache: set then get\<close>

lemma SimpleCache_get_set_same:
  "SimpleCache_get i d (SimpleCache_set i d s c) = Inr (Some s)"
proof (cases "property (realm c) (cache c) d")
  case (OwnStore entry)
  then show ?thesis
    by (simp add: SimpleCache_get_def SimpleCache_set_def update_conv')
next
  case TheObjectPrototype
  then have "map_of (cache c) d = None" "d = ''__proto__''"
    by (auto simp: property_def split: option.splits if_splits prod.splits)
  with TheObjectPrototype show ?thesis
    by (simp add: SimpleCache_get_def SimpleCache_set_def property_def inherited_snapshot_def)
next
  case (MemberFunction f n)
  then have "map_of (cache c) d = None" "d \<noteq> ''__proto__''" "map_of function_members d = Some n" "f = d"
    by (auto simp: property_def split: option.splits if_splits prod.splits)
  with MemberFunction show ?thesis
    by (simp add: SimpleCache_get_def SimpleCache_set_def property_def)
next
  case (InheritedSnapshot k a props)
  then have "map_of (cache c) d = None" "d \<noteq> ''__proto__''" "map_of function_members d = None"
    "canonical_int d = Some k" "prototype (realm c) k = Some (a, props)"
    by (auto simp: property_def split: option.splits if_splits prod.splits)
  with InheritedSnapshot show ?thesis
    by (simp add: SimpleCache_get_def SimpleCache_set_def property_def update_conv')
next
  case NoProperty
  then show ?thesis
    by (simp add: SimpleCache_get_def SimpleCache_set_def update_conv')
qed

lemma SimpleCache_set_twice:
  "SimpleCache_set i d s2 (SimpleCache_set i d s1 c) = SimpleCache_set i d s2 c"
proof (cases "property (realm c) (cache c) d")
  case (OwnStore entry)
  then show ?thesis
    by (simp add: SimpleCache_set_def update_conv')
next
  case TheObjectPrototype
  then have "map_of (cache c) d = None" "d = ''__proto__''"
    by (auto simp: property_def split: option.splits if_splits prod.splits)
  with TheObjectPrototype show ?thesis
    by (simp add: SimpleCache_set_def property_def)
next
  case (MemberFunction f n)
  then have "map_of (cache c) d = None" "d \<noteq> ''__proto__''" "map_of function_members d = Some n" "f = d"
    by (auto simp: property_def split: option.splits if_splits prod.splits)
  with MemberFunction show ?thesis
    by (simp add: SimpleCache_set_def property_def)
next
  case (InheritedSnapshot k a props)
  then have "map_of (cache c) d = None" "d \<noteq> ''__proto__''" "map_of function_members d = None"
    "canonical_int d = Some k" "prototype (realm c) k = Some (a, props)"
    by (auto simp: property_def split: option.splits if_splits prod.splits)
  with InheritedSnapshot show ?thesis
    by (simp add: SimpleCache_set_def property_def)
next
  case NoProperty
  then show ?thesis
    by (simp add: SimpleCache_set_def update_conv')
qed


subsection \<open>combineRanges\<close>

lemma combineRanges_loop_eq:
  "length low = length high \<Longrightarrow>
   combineRanges_loop low high bucket dat out =
     (dat @ map2 (-) (drop bucket high) (drop bucket low),
      out @ map (\<lambda>v. ''Invalid data.'')
              (filter (\<lambda>v. v < 0) (map2 (-) (drop bucket high) (drop bucket low))))"
proof (induction low high bucket dat out rule: combineRanges_loop.induct)
  case (1 low high bucket dat out)
  show ?case
  proof (cases "bucket < length low")
    case True
    with "1.prems" have h: "bucket < length high" by simp
    have dl: "drop bucket low = low ! bucket # drop (Suc bucket) low"
      using True by (simp add: Cons_nth_drop_Suc)
    have dh: "drop bucket high = high ! bucket # drop (Suc bucket) high"
      using h by (simp add: Cons_nth_drop_Suc)
    show ?thesis
      using True "1.IH"[OF True refl refl "1.prems"]
      by (subst combineRanges_loop.simps) (simp add: dl dh Let_def)
  next
    case False
    with "1.prems" show ?thesis
      by (subst combineRanges_loop.simps) simp
  qed
qed

lemma combineRanges_same_length:
  "length low = length high \<Longrightarrow>
   combineRanges low high =
     (Inr (map2 (-) high low),
      map (\<lambda>v. ''Invalid data.'') (filter (\<lambda>v. v < 0) (map2 (-) high low)))"
  by (simp add: combineRanges_def combineRanges_loop_eq)

lemma combineRanges_mismatch:
  "length low \<noteq> length high \<Longrightarrow>
   combineRanges low high = (Inl (Error ''low and high have to have the same length''), [])"
  by (simp add: combineRanges_def)

text \<open>
  Claim C4. \<^verbatim>\<open>combineRanges\<close> throws exactly when the two sequences differ in length. When
  the lengths agree it returns the sequence of that length whose bucket \<open>i\<close> is
  \<open>high[i] - low[i]\<close>, and it logs one line for every negative bucket of the result, which
  it returns all the same.
\<close>

theorem combineRanges_throws_iff_lengths_differ:
  "((\<exists>e. fst (combineRanges low high) = Inl e) \<longleftrightarrow> length low \<noteq> length high) \<and>
   (length low = length high \<longrightarrow>
      (\<exists>dat. combineRanges low high =
                (Inr dat, map (\<lambda>v. ''Invalid data.'') (filter (\<lambda>v. v < 0) dat)) \<and>
             length dat = length low \<and>
             (\<forall>i < length low. dat ! i = high ! i - low ! i)))"
proof (cases "length low = length high")
  case True
  then show ?thesis by (simp add: combineRanges_same_length)
next
  case False
  then show ?thesis by (simp add: combineRanges_mismatch)
qed

text \<open>
  On \<open>[1, 2, 3]\<close> and \<open>[3, 1, 0]\<close> the call returns \<open>[2, -1, -3]\<close> after logging two
  lines; on \<open>[1]\<close> and \<open>[1, 2]\<close> it throws.
\<close>

theorem combineRanges_throws_iff_lengths_differ_witness:
  "length [1, 2, 3 :: int] = length [3, 1, 0 :: int] \<and>
   (\<exists>dat. combineRanges [1, 2, 3] [3, 1, 0] =
             (Inr dat, map (\<lambda>v. ''Invalid data.'') (filter (\<lambda>v. v < 0) dat)) \<and>
          length dat = length [1, 2, 3 :: int] \<and>
          (\<forall>i < length [1, 2, 3 :: int]. dat ! i = [3, 1, 0] ! i - [1, 2, 3] ! i)) \<and>
   \<not> (\<exists>e. fst (combineRanges [1, 2, 3] [3, 1, 0]) = Inl e) \<and>
   combineRanges [1, 2, 3] [3, 1, 0] = (Inr [2, - 1, - 3], [''Invalid data.'', ''Invalid data.'']) \<and>
   length [1 :: int] \<noteq> length [1, 2 :: int] \<and>
   (\<exists>e. fst (combineRanges [1] [1, 2]) = Inl e)"
proof -
  have v: "combineRanges [1, 2, 3] [3, 1, 0] =
      (Inr [2, - 1, - 3], [''Invalid data.'', ''Invalid data.''])"
    by code_simp
  from combineRanges_throws_iff_lengths_differ [of "[1, 2, 3]" "[3, 1, 0]"]
       combineRanges_throws_iff_lengths_differ [of "[1]" "[1, 2]"] v
  show ?thesis by simp
qed

subsection \<open>SimpleCache\<close>

lemma SimpleCache_get_plain:
  "\<not> inherited (realm c) d \<Longrightarrow> prototype (realm c) i = None \<Longrightarrow>
   SimpleCache_get i d c = Inr (SimpleCache_stored c d i)"
proof (cases "map_of (cache c) d")
  case None
  assume "\<not> inherited (realm c) d"
  with None show ?thesis
    by (simp add: SimpleCache_get_def SimpleCache_stored_def property_plain)
next
  case (Some st)
  assume "prototype (realm c) i = None"
  with Some show ?thesis
    by (simp add: SimpleCache_get_def SimpleCache_stored_def inherited_snapshot_def
             split: option.splits)
qed

lemma prototype_SimpleCache_set_mono:
  "prototype (realm c) k \<noteq> None \<Longrightarrow> prototype (realm (SimpleCache_set i d s c)) k \<noteq> None"
  by (auto simp: SimpleCache_set_def property_def split: slot.splits option.splits if_splits)

lemma inherited_SimpleCache_set_mono:
  "inherited (realm c) d' \<Longrightarrow> inherited (realm (SimpleCache_set i d s c)) d'"
  using prototype_SimpleCache_set_mono [of c _ i d s]
  by (auto simp: inherited_def split: option.splits)

lemma SimpleCache_stored_set:
  assumes "\<not> inherited (realm (SimpleCache_set i' d' s c)) d"
  shows "SimpleCache_stored (SimpleCache_set i' d' s c) d i =
           (if d' = d \<and> i' = i then Some s else SimpleCache_stored c d i)"
proof -
  from assms have ni: "\<not> inherited (realm c) d"
    using inherited_SimpleCache_set_mono by blast
  show ?thesis
  proof (cases "d' = d")
    case True
    show ?thesis
    proof (cases "map_of (cache c) d")
      case None
      with ni True show ?thesis
        by (simp add: SimpleCache_stored_def SimpleCache_set_def property_plain update_conv')
    next
      case (Some st)
      with True show ?thesis
        by (simp add: SimpleCache_stored_def SimpleCache_set_def update_conv')
    qed
  next
    case False
    then show ?thesis
      by (auto simp: SimpleCache_stored_def SimpleCache_set_def update_conv'
               split: slot.splits)
  qed
qed

lemma SimpleCache_stored_simps [simp]:
  "SimpleCache_stored (Cache_new r dims) d i = None"
  "SimpleCache_stored (invalidate c) d i = None"
  by (simp_all add: SimpleCache_stored_def)

lemma inherited_SimpleCache_after_mono:
  "inherited (realm (SimpleCache_after r dims calls)) d \<Longrightarrow>
   inherited (realm (SimpleCache_after r dims (calls @ calls'))) d"
proof (induction calls' rule: calls_induct)
  case Nil
  then show ?case by simp
next
  case (Invalidate calls')
  then show ?case by (simp flip: append_assoc)
next
  case (Set calls' i d' s)
  then show ?case by (simp flip: append_assoc add: inherited_SimpleCache_set_mono)
qed

lemma SimpleCache_stored_after:
  "\<not> inherited (realm (SimpleCache_after r dims calls)) d \<Longrightarrow>
   SimpleCache_stored (SimpleCache_after r dims calls) d i = last_set calls i d"
proof (induction calls rule: calls_induct)
  case Nil
  show ?case by simp
next
  case (Invalidate calls)
  show ?case by simp
next
  case (Set calls i' d' s)
  from Set.prems have n: "\<not> inherited (realm (SimpleCache_after r dims calls)) d"
    using inherited_SimpleCache_set_mono by fastforce
  from Set.prems have "SimpleCache_stored (SimpleCache_after r dims (calls @ [Set i' d' s])) d i =
      (if d' = d \<and> i' = i then Some s else SimpleCache_stored (SimpleCache_after r dims calls) d i)"
    by (simp add: SimpleCache_stored_set)
  with Set.IH [OF n] show ?case by auto
qed

lemma realm_SimpleCache_set_plain:
  "\<not> inherited (realm c) d \<Longrightarrow> realm (SimpleCache_set i d s c) = realm c"
  by (cases "map_of (cache c) d") (simp_all add: SimpleCache_set_def property_plain)

lemma realm_SimpleCache_after_plain:
  "\<forall>d \<in> set (dimensions_of calls). \<not> inherited r d \<Longrightarrow>
   realm (SimpleCache_after r dims calls) = r"
  by (induction calls rule: calls_induct) (simp_all add: realm_SimpleCache_set_plain)

lemma SimpleCache_getCombined_miss:
  "SimpleCache_get start d c = Inr None \<or>
   (\<exists>low. SimpleCache_get start d c = Inr (Some low)) \<and> SimpleCache_get stop d c = Inr None \<Longrightarrow>
   SimpleCache_getCombined start stop d c = (Inr None, [])"
  by (auto simp: SimpleCache_getCombined_def)

lemma SimpleCache_getCombined_hit:
  "SimpleCache_get start d c = Inr (Some low) \<Longrightarrow> SimpleCache_get stop d c = Inr (Some high) \<Longrightarrow>
   length low = length high \<Longrightarrow>
   SimpleCache_getCombined start stop d c =
     (Inr (Some \<lparr>cdata = map2 (-) high low, crange = (start, stop)\<rparr>),
      map (\<lambda>v. ''Invalid data.'') (filter (\<lambda>v. v < 0) (map2 (-) high low)))"
  by (simp add: SimpleCache_getCombined_def combineRanges_same_length)

lemma SimpleCache_getCombined_throw:
  "SimpleCache_get start d c = Inr (Some low) \<Longrightarrow> SimpleCache_get stop d c = Inr (Some high) \<Longrightarrow>
   length low \<noteq> length high \<Longrightarrow>
   SimpleCache_getCombined start stop d c =
     (Inl (Error ''low and high have to have the same length''), [])"
  by (simp add: SimpleCache_getCombined_def combineRanges_mismatch)

lemma SimpleCache_getCombined_Some_iff:
  assumes "SimpleCache_get start d c = Inr lo" "SimpleCache_get stop d c = Inr hi"
  shows "(\<exists>r. fst (SimpleCache_getCombined start stop d c) = Inr (Some r)) \<longleftrightarrow>
      (\<exists>low high. lo = Some low \<and> hi = Some high \<and> length low = length high)"
proof (cases lo)
  case None
  with assms show ?thesis by (simp add: SimpleCache_getCombined_miss)
next
  case low: (Some low)
  show ?thesis
  proof (cases hi)
    case None
    with assms low show ?thesis by (simp add: SimpleCache_getCombined_miss)
  next
    case high: (Some high)
    show ?thesis
    proof (cases "length low = length high")
      case True
      with assms low high show ?thesis by (simp add: SimpleCache_getCombined_hit)
    next
      case False
      with assms low high show ?thesis by (simp add: SimpleCache_getCombined_throw)
    qed
  qed
qed

text \<open>
  Claim C3, as amended. Take a dimension \<open>d\<close> whose name no object inherits a property
  under, and coordinates \<open>start\<close> and \<open>end\<close> at which nothing was written onto
  \<^verbatim>\<open>Object.prototype\<close>. On the exact cache \<^verbatim>\<open>getCombined(start, end, d)\<close> returns a non-null
  result if and only if the cache stores snapshots at both \<open>start\<close> and \<open>end\<close> for \<open>d\<close>
  \<^emph>\<open>and the two snapshots have the same length\<close>. The result then has the range
  \<open>(start, end)\<close> unchanged and the data \<open>high[k] - low[k]\<close>. A miss of either boundary
  returns null and does not throw. When both are stored with different lengths the call
  throws the error of \<^verbatim>\<open>combineRanges\<close>. After a history of calls, the snapshot the cache
  stores at a coordinate of such a dimension is the one of the last live \<^verbatim>\<open>set\<close> there.
\<close>

theorem SimpleCache_getCombined_iff_both_stored_same_length:
  "(\<not> inherited (realm c) d \<and> prototype (realm c) start = None \<and>
      prototype (realm c) stop = None \<longrightarrow>
    ((\<exists>r. fst (SimpleCache_getCombined start stop d c) = Inr (Some r)) \<longleftrightarrow>
       (\<exists>low high. SimpleCache_stored c d start = Some low \<and>
          SimpleCache_stored c d stop = Some high \<and> length low = length high)) \<and>
    (\<forall>low high. SimpleCache_stored c d start = Some low \<and>
         SimpleCache_stored c d stop = Some high \<and> length low = length high \<longrightarrow>
       fst (SimpleCache_getCombined start stop d c) =
         Inr (Some \<lparr>cdata = map2 (-) high low, crange = (start, stop)\<rparr>) \<and>
       length (map2 (-) high low) = length low \<and>
       (\<forall>k < length low. map2 (-) high low ! k = high ! k - low ! k)) \<and>
    (SimpleCache_stored c d start = None \<or> SimpleCache_stored c d stop = None \<longrightarrow>
       SimpleCache_getCombined start stop d c = (Inr None, [])) \<and>
    (\<forall>low high. SimpleCache_stored c d start = Some low \<and>
         SimpleCache_stored c d stop = Some high \<and> length low \<noteq> length high \<longrightarrow>
       SimpleCache_getCombined start stop d c =
         (Inl (Error ''low and high have to have the same length''), []))) \<and>
   (\<not> inherited (realm (SimpleCache_after r dims calls)) d \<longrightarrow>
      SimpleCache_stored (SimpleCache_after r dims calls) d start = last_set calls start d)"
  (is "(?A \<longrightarrow> ?X1 \<and> ?X2 \<and> ?X3 \<and> ?X4) \<and> ?H")
proof -
  have x: "?X1" "?X2" "?X3" "?X4" if a: ?A
  proof -
    from a have g: "SimpleCache_get start d c = Inr (SimpleCache_stored c d start)"
      "SimpleCache_get stop d c = Inr (SimpleCache_stored c d stop)"
      by (simp_all add: SimpleCache_get_plain)
    show ?X1
      by (rule SimpleCache_getCombined_Some_iff [OF g])
    show ?X2
      using g by (simp add: SimpleCache_getCombined_hit)
    show ?X3
      using g by (cases "SimpleCache_stored c d start") (auto simp: SimpleCache_getCombined_miss)
    show ?X4
      using g by (simp add: SimpleCache_getCombined_throw)
  qed
  have h: ?H
    by (simp add: SimpleCache_stored_after)
  from x h show ?thesis
    by blast
qed

text \<open>
  The claim as first stated fails: after \<^verbatim>\<open>set(0, "a", [1])\<close> and
  \<^verbatim>\<open>set(1, "a", [1, 2])\<close> snapshots are stored at both \<open>0\<close> and \<open>1\<close>, and
  \<^verbatim>\<open>getCombined(0, 1, "a")\<close> throws instead of returning a result.
\<close>

theorem SimpleCache_getCombined_counterexample:
  "SimpleCache_get 0 ''a''
     (SimpleCache_after realm0 [''a''] [Set 0 ''a'' [1], Set 1 ''a'' [1, 2]]) = Inr (Some [1]) \<and>
   SimpleCache_get 1 ''a''
     (SimpleCache_after realm0 [''a''] [Set 0 ''a'' [1], Set 1 ''a'' [1, 2]]) = Inr (Some [1, 2]) \<and>
   SimpleCache_getCombined 0 1 ''a''
     (SimpleCache_after realm0 [''a''] [Set 0 ''a'' [1], Set 1 ''a'' [1, 2]]) =
     (Inl (Error ''low and high have to have the same length''), [])"
  by code_simp

text \<open>
  The amended statement on the first scenario of the specification: from \<open>0\<close> to \<open>100\<close> on
  \<open>a\<close> the result is \<open>[40, 60]\<close> over \<open>(0, 100)\<close>, and \<open>50\<close>, which was never stored, is a
  miss.
\<close>

theorem SimpleCache_getCombined_iff_both_stored_same_length_witness:
  "\<not> inherited
       (realm (SimpleCache_after realm0 [''a'', ''b'']
          [Set 0 ''a'' [10, 20], Set 100 ''a'' [50, 80], Set 0 ''b'' [5, 5],
           Set 100 ''b'' [9, 9]])) ''a'' \<and>
   SimpleCache_stored
     (SimpleCache_after realm0 [''a'', ''b'']
        [Set 0 ''a'' [10, 20], Set 100 ''a'' [50, 80], Set 0 ''b'' [5, 5], Set 100 ''b'' [9, 9]])
     ''a'' 0 = Some [10, 20] \<and>
   SimpleCache_stored
     (SimpleCache_after realm0 [''a'', ''b'']
        [Set 0 ''a'' [10, 20], Set 100 ''a'' [50, 80], Set 0 ''b'' [5, 5], Set 100 ''b'' [9, 9]])
     ''a'' 100 = Some [50, 80] \<and>
   length [10, 20 :: int] = length [50, 80 :: int] \<and>
   fst (SimpleCache_getCombined 0 100 ''a''
     (SimpleCache_after realm0 [''a'', ''b'']
        [Set 0 ''a'' [10, 20], Set 100 ''a'' [50, 80], Set 0 ''b'' [5, 5], Set 100 ''b'' [9, 9]]))
     = Inr (Some \<lparr>cdata = [40, 60], crange = (0, 100)\<rparr>) \<and>
   SimpleCache_stored
     (SimpleCache_after realm0 [''a'', ''b'']
        [Set 0 ''a'' [10, 20], Set 100 ''a'' [50, 80], Set 0 ''b'' [5, 5], Set 100 ''b'' [9, 9]])
     ''a'' 50 = None \<and>
   SimpleCache_getCombined 0 50 ''a''
     (SimpleCache_after realm0 [''a'', ''b'']
        [Set 0 ''a'' [10, 20], Set 100 ''a'' [50, 80], Set 0 ''b'' [5, 5], Set 100 ''b'' [9, 9]])
     = (Inr None, [])"
proof -
  let ?calls = "[Set 0 ''a'' [10, 20], Set 100 ''a'' [50, 80], Set 0 ''b'' [5, 5],
                 Set 100 ''b'' [9, 9]]"
  let ?c = "SimpleCache_after realm0 [''a'', ''b''] ?calls"
  have n: "\<not> inherited realm0 ''a''" "\<not> inherited realm0 ''b''" by code_simp+
  have r: "realm ?c = realm0"
    by (rule realm_SimpleCache_after_plain) (simp add: dimensions_of_def n)
  have p: "prototype realm0 0 = None" "prototype realm0 100 = None" "prototype realm0 50 = None"
    by (simp_all add: realm0_def)
  have s0: "SimpleCache_stored ?c ''a'' 0 = Some [10, 20]" by code_simp
  have s100: "SimpleCache_stored ?c ''a'' 100 = Some [50, 80]" by code_simp
  have s50: "SimpleCache_stored ?c ''a'' 50 = None" by code_simp
  from SimpleCache_getCombined_iff_both_stored_same_length
         [of ?c "''a''" 0 100 realm0 "[''a'', ''b'']" ?calls]
       SimpleCache_getCombined_iff_both_stored_same_length
         [of ?c "''a''" 0 50 realm0 "[''a'', ''b'']" ?calls]
       r n p s0 s100 s50
  show ?thesis by simp
qed

text \<open>
  Claim C9. On the exact cache a \<^verbatim>\<open>set\<close> at a coordinate and dimension makes the exact
  lookup there return the new snapshot, whatever was stored before and whatever the
  dimension's name; a second \<^verbatim>\<open>set\<close> at the same place leaves the cache as if only the
  second had been made, and the same \<^verbatim>\<open>set\<close> made twice leaves the cache as made once.
  After any history the lookup returns the snapshot of the last live \<^verbatim>\<open>set\<close> at that
  place, for a dimension whose name no object inherits a property under and a coordinate
  at which nothing was written onto \<^verbatim>\<open>Object.prototype\<close>.
\<close>

theorem SimpleCache_set_overwrites:
  "SimpleCache_get i d (SimpleCache_set i d s2 c) = Inr (Some s2) \<and>
   SimpleCache_get i d (SimpleCache_set i d s2 (SimpleCache_set i d s1 c)) = Inr (Some s2) \<and>
   SimpleCache_set i d s2 (SimpleCache_set i d s1 c) = SimpleCache_set i d s2 c \<and>
   SimpleCache_set i d s (SimpleCache_set i d s c) = SimpleCache_set i d s c \<and>
   (\<not> inherited (realm (SimpleCache_after r dims calls)) d \<and>
    prototype (realm (SimpleCache_after r dims calls)) i = None \<longrightarrow>
      SimpleCache_get i d (SimpleCache_after r dims calls) = Inr (last_set calls i d))"
  by (simp add: SimpleCache_get_set_same SimpleCache_set_twice SimpleCache_get_plain
        SimpleCache_stored_after)

text \<open>
  After \<^verbatim>\<open>set(0, "a", [1])\<close> and \<^verbatim>\<open>set(0, "a", [2])\<close> the lookup at \<open>(0, a)\<close> returns
  \<open>[2]\<close>, and so it does on any cache, also for the dimension \<^verbatim>\<open>toString\<close>.
\<close>

theorem SimpleCache_set_overwrites_witness:
  "\<not> inherited (realm (SimpleCache_after realm0 [] [Set 0 ''a'' [1], Set 0 ''a'' [2]])) ''a'' \<and>
   prototype (realm (SimpleCache_after realm0 [] [Set 0 ''a'' [1], Set 0 ''a'' [2]])) 0 = None \<and>
   SimpleCache_get 0 ''a'' (SimpleCache_after realm0 [] [Set 0 ''a'' [1], Set 0 ''a'' [2]]) =
     Inr (Some [2]) \<and>
   SimpleCache_get 0 ''toString''
     (SimpleCache_set 0 ''toString'' [2] (SimpleCache_set 0 ''toString'' [1] (Cache_new realm0 []))) =
     Inr (Some [2])"
proof -
  let ?c = "SimpleCache_after realm0 [] [Set 0 ''a'' [1], Set 0 ''a'' [2]]"
  have n: "\<not> inherited realm0 ''a''" by code_simp
  have r: "realm ?c = realm0"
    by (rule realm_SimpleCache_after_plain) (simp add: dimensions_of_def n)
  have p: "prototype realm0 0 = None" by (simp add: realm0_def)
  have l: "last_set [Set 0 ''a'' [1], Set 0 ''a'' [2]] 0 ''a'' = Some [2]" by code_simp
  from SimpleCache_set_overwrites [of 0 "''a''" "[2]" ?c "[1]" "[2]" realm0 "[]"
         "[Set 0 ''a'' [1], Set 0 ''a'' [2]]"]
       SimpleCache_set_overwrites [of 0 "''toString''" "[2]" "Cache_new realm0 []" "[1]" "[2]"
         realm0 "[]" "[]"]
       r n p l
  show ?thesis by simp
qed


subsection \<open>The snapping store\<close>

lemma entry_eta [simp]: "\<lparr>index = index e, data = data e\<rparr> = (e::entry)"
  by (cases e) simp

lemma SnappingCache_store_simps [simp]:
  "SnappingCache_store (Cache_new r dims) d = []"
  "SnappingCache_store (invalidate c) d = []"
  by (simp_all add: SnappingCache_store_def)

lemma SnappingCache_after_snoc:
  "SnappingCache_after r dims (calls @ [call]) =
     SnappingCache_call (SnappingCache_after r dims calls) call"
  by (simp add: SnappingCache_after_def)

text \<open>
  A \<^verbatim>\<open>set\<close> on a dimension the cache owns a store for, or whose name no object inherits,
  returns and leaves the store with the new entry, sorted in.
\<close>

lemma SnappingCache_set_plain:
  assumes "map_of (cache c) d \<noteq> None \<or> \<not> inherited (realm c) d"
  shows "SnappingCache_set i d s c =
     Inr (c\<lparr>cache := AList.update d
            (sort_key index (SnappingCache_store c d @ [\<lparr>index = i, data = s\<rparr>])) (cache c)\<rparr>)"
proof (cases "map_of (cache c) d")
  case None
  with assms show ?thesis
    by (simp add: SnappingCache_set_def SnappingCache_store_def property_plain)
next
  case (Some xs)
  then show ?thesis
    by (simp add: SnappingCache_set_def SnappingCache_store_def)
qed

text \<open>On an inherited name it leaves the cache's own properties as they were.\<close>

lemma SnappingCache_set_inherited:
  assumes "map_of (cache c) d = None" "inherited (realm c) d"
  shows "SnappingCache_set i d s c = Inl TypeError \<or>
     (\<exists>c'. SnappingCache_set i d s c = Inr c' \<and> cache c' = cache c \<and>
        dimensions c' = dimensions c)"
  using property_inherited [OF assms]
  by (cases "property (realm c) (cache c) d") (simp_all add: SnappingCache_set_def)

lemma SnappingCache_store_call:
  "SnappingCache_store (SnappingCache_call c (Set i d s)) d' =
     (if d' = d \<and> (map_of (cache c) d \<noteq> None \<or> \<not> inherited (realm c) d)
      then sort_key index (SnappingCache_store c d @ [\<lparr>index = i, data = s\<rparr>])
      else SnappingCache_store c d')"
proof (cases "map_of (cache c) d \<noteq> None \<or> \<not> inherited (realm c) d")
  case True
  then show ?thesis
    by (simp add: SnappingCache_set_plain SnappingCache_store_def update_conv')
next
  case False
  then have "map_of (cache c) d = None" "inherited (realm c) d" by auto
  from SnappingCache_set_inherited [OF this, of i s] False show ?thesis
    by (auto simp: SnappingCache_store_def)
qed

lemma sorted_SnappingCache_after:
  "sorted (map index (SnappingCache_store (SnappingCache_after r dims calls) d))"
proof (induction calls rule: calls_induct)
  case Nil
  show ?case by simp
next
  case (Invalidate calls)
  show ?case by simp
next
  case (Set calls i d' s)
  then show ?case
    by (simp only: SnappingCache_after_snoc SnappingCache_store_call)
       (simp del: SnappingCache_after_simps)
qed

subsection \<open>The binary search\<close>

text \<open>
  What the loop leaves: two positions inside the initial bounds, adjacent when the
  bounds differ, with an entry below the target at \<open>lo\<close> unless \<open>lo\<close> never moved and an
  entry not below it at \<open>hi\<close> unless \<open>hi\<close> never moved.
\<close>

lemma SnappingCache_search_post:
  "lo \<le> hi \<Longrightarrow> SnappingCache_search xs t lo hi = (lo', hi') \<Longrightarrow>
     lo \<le> lo' \<and> lo' \<le> hi' \<and> hi' \<le> hi \<and> hi' - lo' \<le> 1 \<and> (lo < hi \<longrightarrow> lo' < hi') \<and>
     (lo' = lo \<or> index (xs ! lo') < t) \<and> (hi' = hi \<or> t \<le> index (xs ! hi'))"
proof (induction xs t lo hi rule: SnappingCache_search.induct)
  case (1 xs target lo hi)
  show ?case
  proof (cases "hi - lo > 1")
    case False
    with "1.prems" show ?thesis
      by (subst (asm) SnappingCache_search.simps) auto
  next
    case True
    define mid where "mid = (lo + hi) div 2"
    have m: "lo < mid" "mid < hi" using True by (auto simp: mid_def)
    show ?thesis
    proof (cases "index (xs ! mid) < target")
      case less: True
      have eq: "SnappingCache_search xs target mid hi = (lo', hi')"
        using "1.prems"(2) True less
        by (subst (asm) SnappingCache_search.simps) (simp add: mid_def Let_def)
      have "mid \<le> hi" using m by simp
      from "1.IH"(1)[OF True mid_def less this eq] m less show ?thesis
        by auto
    next
      case ge: False
      have eq: "SnappingCache_search xs target lo mid = (lo', hi')"
        using "1.prems"(2) True ge
        by (subst (asm) SnappingCache_search.simps) (simp add: mid_def Let_def)
      have "lo \<le> mid" using m by simp
      from "1.IH"(2)[OF True mid_def ge this eq] m ge show ?thesis
        by auto
    qed
  qed
qed

lemma sorted_index_mono:
  "sorted (map index xs) \<Longrightarrow> i \<le> j \<Longrightarrow> j < length xs \<Longrightarrow> index (xs ! i) \<le> index (xs ! j)"
  using sorted_nth_mono[of "map index xs" i j] by simp

text \<open>
  On a sorted, non-empty array the entry chosen after the search is a nearest one, and
  the lower one when two coordinates are equally near.
\<close>

lemma closest_nearest:
  assumes srt: "sorted (map index xs)" and ne: "xs \<noteq> []"
    and s: "SnappingCache_search xs t 0 (length xs - 1) = (lo, hi)"
    and c: "closest = (if t - index (xs ! lo) \<le> index (xs ! hi) - t then xs ! lo else xs ! hi)"
  shows "closest \<in> set xs \<and>
     (\<forall>e' \<in> set xs. \<bar>index closest - t\<bar> \<le> \<bar>index e' - t\<bar> \<and>
        (\<bar>index e' - t\<bar> = \<bar>index closest - t\<bar> \<longrightarrow> index closest \<le> index e'))"
proof -
  let ?n = "length xs"
  from ne have n: "0 < ?n" by simp
  from SnappingCache_search_post[OF _ s]
  have p: "lo \<le> hi" "hi \<le> ?n - 1" "hi - lo \<le> 1" "0 < ?n - 1 \<longrightarrow> lo < hi"
    "lo = 0 \<or> index (xs ! lo) < t" "hi = ?n - 1 \<or> t \<le> index (xs ! hi)"
    by auto
  have hin: "hi < ?n" "lo < ?n" using p n by auto
  have below: "index (xs ! i) \<le> index (xs ! lo)" if "i \<le> lo" for i
    using sorted_index_mono[OF srt that hin(2)] .
  have above: "index (xs ! hi) \<le> index (xs ! i)" if "hi \<le> i" "i < ?n" for i
    using sorted_index_mono[OF srt that] .
  have lohi: "index (xs ! lo) \<le> index (xs ! hi)"
    using sorted_index_mono[OF srt p(1) hin(1)] .
  show ?thesis
  proof (cases "lo = hi")
    case True
    with p(2,4) n have "?n = 1" "lo = 0" by arith+
    then obtain x where "xs = [x]" by (cases xs) auto
    with True \<open>lo = 0\<close> c show ?thesis by simp
  next
    case False
    then have adj: "hi = Suc lo" using p by arith
    show ?thesis
    proof (intro conjI ballI)
      show "closest \<in> set xs"
        using hin c by simp
    next
      fix e' assume "e' \<in> set xs"
      then obtain i where i: "i < ?n" "e' = xs ! i" by (auto simp: in_set_conv_nth)
      have split: "i \<le> lo \<or> hi \<le> i" using adj by arith
      have lo0: "index (xs ! lo) \<le> index (xs ! i)" if "lo = 0"
        using sorted_index_mono[OF srt _ i(1), of 0] that by simp
      have hin1: "index (xs ! i) \<le> index (xs ! hi)" if "hi = ?n - 1"
        using sorted_index_mono[OF srt _ hin(1), of i] that i by simp
      from split below[of i] above[of i] i lohi p(5,6) lo0 hin1 c
      show "\<bar>index closest - t\<bar> \<le> \<bar>index e' - t\<bar>"
        by (auto simp: abs_if split: if_splits)
      from split below[of i] above[of i] i lohi p(5,6) lo0 hin1 c
      show "\<bar>index e' - t\<bar> = \<bar>index closest - t\<bar> \<longrightarrow> index closest \<le> index e'"
        by (auto simp: abs_if split: if_splits)
    qed
  qed
qed

lemma SnappingCache_get_empty:
  "SnappingCache_store c d = [] \<Longrightarrow> \<not> inherited (realm c) d \<Longrightarrow>
   SnappingCache_get t d c = Inr None"
  by (cases "map_of (cache c) d")
     (simp_all add: SnappingCache_store_def SnappingCache_get_def property_plain)

lemma SnappingCache_get_in_store:
  assumes "SnappingCache_store c d \<noteq> []"
  shows "\<exists>e. SnappingCache_get t d c = Inr (Some e) \<and> e \<in> set (SnappingCache_store c d)"
proof -
  let ?xs = "SnappingCache_store c d"
  from assms have m: "map_of (cache c) d = Some ?xs"
    by (auto simp: SnappingCache_store_def split: option.splits)
  obtain lo hi where s: "SnappingCache_search ?xs t 0 (length ?xs - 1) = (lo, hi)"
    by (cases "SnappingCache_search ?xs t 0 (length ?xs - 1)")
  from SnappingCache_search_post[OF _ s] assms have "lo < length ?xs" "hi < length ?xs"
    by auto
  then show ?thesis using m assms s
    by (simp add: SnappingCache_get_def Let_def)
qed

lemma SnappingCache_get_nearest:
  assumes "SnappingCache_store c d \<noteq> []" "sorted (map index (SnappingCache_store c d))"
  shows "\<exists>e. SnappingCache_get t d c = Inr (Some e) \<and> e \<in> set (SnappingCache_store c d) \<and>
     (\<forall>e' \<in> set (SnappingCache_store c d). \<bar>index e - t\<bar> \<le> \<bar>index e' - t\<bar> \<and>
        (\<bar>index e' - t\<bar> = \<bar>index e - t\<bar> \<longrightarrow> index e \<le> index e'))"
proof -
  let ?xs = "SnappingCache_store c d"
  from assms have m: "map_of (cache c) d = Some ?xs"
    by (auto simp: SnappingCache_store_def split: option.splits)
  obtain lo hi where s: "SnappingCache_search ?xs t 0 (length ?xs - 1) = (lo, hi)"
    by (cases "SnappingCache_search ?xs t 0 (length ?xs - 1)")
  define closest where
    "closest = (if t - index (?xs ! lo) \<le> index (?xs ! hi) - t then ?xs ! lo else ?xs ! hi)"
  have g: "SnappingCache_get t d c = Inr (Some closest)"
    using m assms(1) s by (simp add: SnappingCache_get_def Let_def closest_def)
  from closest_nearest[OF assms(2,1) s closest_def] g show ?thesis
    by simp
qed

text \<open>
  Claim C1. On a snapping cache left by any history of calls, when the store of \<open>d\<close> is not
  empty the lookup \<^verbatim>\<open>get(target, d)\<close> returns an entry of that store whose coordinate is at
  the least distance from \<open>target\<close> among the stored entries, and every stored coordinate at
  the same distance is at least the returned one.
\<close>

theorem SnappingCache_get_nearest_lower_on_tie:
  "SnappingCache_store (SnappingCache_after r dims calls) d \<noteq> [] \<Longrightarrow>
   \<exists>e. SnappingCache_get target d (SnappingCache_after r dims calls) = Inr (Some e) \<and>
       e \<in> set (SnappingCache_store (SnappingCache_after r dims calls) d) \<and>
       (\<forall>e' \<in> set (SnappingCache_store (SnappingCache_after r dims calls) d).
          \<bar>index e - target\<bar> \<le> \<bar>index e' - target\<bar> \<and>
          (\<bar>index e' - target\<bar> = \<bar>index e - target\<bar> \<longrightarrow> index e \<le> index e'))"
  by (rule SnappingCache_get_nearest) (simp_all add: sorted_SnappingCache_after)

text \<open>
  With the coordinates \<open>10\<close>, \<open>20\<close>, \<open>30\<close> stored, the equidistant target \<open>25\<close> resolves to
  the entry at \<open>20\<close>, and so does \<open>24\<close>.
\<close>

theorem SnappingCache_get_nearest_lower_on_tie_witness:
  "SnappingCache_store
     (SnappingCache_after realm0 [''d'']
        [Set 10 ''d'' [1], Set 20 ''d'' [2], Set 30 ''d'' [3]]) ''d'' \<noteq> [] \<and>
   (\<exists>e. SnappingCache_get 25 ''d''
          (SnappingCache_after realm0 [''d'']
             [Set 10 ''d'' [1], Set 20 ''d'' [2], Set 30 ''d'' [3]]) = Inr (Some e) \<and>
        index e = 20 \<and>
        (\<forall>e' \<in> set (SnappingCache_store
             (SnappingCache_after realm0 [''d'']
                [Set 10 ''d'' [1], Set 20 ''d'' [2], Set 30 ''d'' [3]]) ''d'').
           \<bar>index e - 25\<bar> \<le> \<bar>index e' - 25\<bar> \<and>
           (\<bar>index e' - 25\<bar> = \<bar>index e - 25\<bar> \<longrightarrow> index e \<le> index e'))) \<and>
   SnappingCache_get 24 ''d''
     (SnappingCache_after realm0 [''d''] [Set 10 ''d'' [1], Set 20 ''d'' [2], Set 30 ''d'' [3]])
     = Inr (Some \<lparr>index = 20, data = [2]\<rparr>)"
proof -
  let ?c = "SnappingCache_after realm0 [''d'']
              [Set 10 ''d'' [1], Set 20 ''d'' [2], Set 30 ''d'' [3]]"
  have ne: "SnappingCache_store ?c ''d'' \<noteq> []"
    by code_simp
  have g: "SnappingCache_get 25 ''d'' ?c = Inr (Some \<lparr>index = 20, data = [2]\<rparr>)"
    by code_simp
  have g': "SnappingCache_get 24 ''d'' ?c = Inr (Some \<lparr>index = 20, data = [2]\<rparr>)"
    by code_simp
  from SnappingCache_get_nearest_lower_on_tie [OF ne, of 25] g g' ne show ?thesis
    by auto
qed


subsection \<open>set on the snapping cache\<close>

text \<open>
  On a dimension the cache has a store for, or whose name no object inherits a property
  under, \<^verbatim>\<open>set\<close> returns; the store of the dimension gains the new entry and loses none,
  is sorted afterwards, and the other stores are as they were.
\<close>

lemma mset_SnappingCache_store_set:
  assumes "SnappingCache_store c d \<noteq> [] \<or> \<not> inherited (realm c) d"
  shows "\<exists>c'. SnappingCache_set i d s c = Inr c' \<and>
     mset (SnappingCache_store c' d) = add_mset \<lparr>index = i, data = s\<rparr> (mset (SnappingCache_store c d)) \<and>
     sorted (map index (SnappingCache_store c' d)) \<and>
     (\<forall>d'. d' \<noteq> d \<longrightarrow> SnappingCache_store c' d' = SnappingCache_store c d')"
proof -
  from assms have "map_of (cache c) d \<noteq> None \<or> \<not> inherited (realm c) d"
    by (auto simp: SnappingCache_store_def)
  from SnappingCache_set_plain [OF this, of i s] show ?thesis
    by (simp add: SnappingCache_store_def update_conv')
qed

text \<open>
  Claim C7 fails on the code. A dimension named as a member of \<^verbatim>\<open>Object.prototype\<close> finds
  \<^verbatim>\<open>this.cache[dimension]\<close> truthy before anything was set, so no store is made for it,
  and \<^verbatim>\<open>push\<close>, which a function does not have, throws: after \<^verbatim>\<open>set(0, "toString", [1])\<close>
  on a new cache the dimension has no entry, and a second such call adds none either.
\<close>

theorem SnappingCache_set_inherited_name_throws:
  "SnappingCache_set 0 ''toString'' [1] (Cache_new realm0 [''toString'']) = Inl TypeError \<and>
   SnappingCache_store
     (SnappingCache_after realm0 [''toString'']
        [Set 0 ''toString'' [1], Set 0 ''toString'' [1]]) ''toString'' = [] \<and>
   getDimensions
     (SnappingCache_after realm0 [''toString'']
        [Set 0 ''toString'' [1], Set 0 ''toString'' [1]]) = []"
proof -
  have t: "SnappingCache_set 0 ''toString'' [1] (Cache_new realm0 [''toString'']) = Inl TypeError"
    by (simp add: SnappingCache_set_def property_def function_members_def)
  have "SnappingCache_after realm0 [''toString'']
        [Set 0 ''toString'' [1], Set 0 ''toString'' [1]] = Cache_new realm0 [''toString'']"
    by (simp add: SnappingCache_after_def t)
  with t show ?thesis
    by (simp add: getDimensions_def Object_keys_def List.map_filter_def)
qed

subsection \<open>getCombined on the snapping cache\<close>

lemma SnappingCache_getCombined_empty:
  "SnappingCache_store c d = [] \<Longrightarrow> \<not> inherited (realm c) d \<Longrightarrow>
   SnappingCache_getCombined start stop d c = (Inr None, [])"
  by (simp add: SnappingCache_getCombined_def SnappingCache_get_empty)

lemma SnappingCache_getCombined_not_above:
  "SnappingCache_get start d c = Inr (Some low) \<Longrightarrow>
   SnappingCache_get stop d c = Inr (Some high) \<Longrightarrow>
   index high \<le> index low \<Longrightarrow> SnappingCache_getCombined start stop d c = (Inr None, [])"
  by (simp add: SnappingCache_getCombined_def)

lemma SnappingCache_getCombined_hit:
  "SnappingCache_get start d c = Inr (Some low) \<Longrightarrow>
   SnappingCache_get stop d c = Inr (Some high) \<Longrightarrow>
   index low < index high \<Longrightarrow> length (data low) = length (data high) \<Longrightarrow>
   SnappingCache_getCombined start stop d c =
     (Inr (Some \<lparr>cdata = map2 (-) (data high) (data low), crange = (index low, index high)\<rparr>),
      map (\<lambda>v. ''Invalid data.'') (filter (\<lambda>v. v < 0) (map2 (-) (data high) (data low))))"
  by (simp add: SnappingCache_getCombined_def combineRanges_same_length)

lemma SnappingCache_getCombined_throw:
  "SnappingCache_get start d c = Inr (Some low) \<Longrightarrow>
   SnappingCache_get stop d c = Inr (Some high) \<Longrightarrow>
   index low < index high \<Longrightarrow> length (data low) \<noteq> length (data high) \<Longrightarrow>
   SnappingCache_getCombined start stop d c =
     (Inl (Error ''low and high have to have the same length''), [])"
  by (simp add: SnappingCache_getCombined_def combineRanges_mismatch)

lemma SnappingCache_getCombined_same:
  "\<not> (\<exists>x. fst (SnappingCache_getCombined i i d c) = Inr (Some x))"
  by (simp add: SnappingCache_getCombined_def split: sum.splits option.splits)

lemma SnappingCache_getCombined_same_plain:
  assumes "SnappingCache_store c d \<noteq> [] \<or> \<not> inherited (realm c) d"
  shows "SnappingCache_getCombined i i d c = (Inr None, [])"
proof (cases "SnappingCache_store c d = []")
  case True
  with assms show ?thesis by (simp add: SnappingCache_getCombined_empty)
next
  case False
  from SnappingCache_get_in_store [OF False, of i]
  obtain e where "SnappingCache_get i d c = Inr (Some e)" by blast
  then show ?thesis by (simp add: SnappingCache_getCombined_def)
qed

text \<open>
  Claim C2, as amended. On the snapping cache \<^verbatim>\<open>getCombined(start, end, d)\<close> returns null
  when the store of \<open>d\<close> is empty and no object inherits a property under the name \<open>d\<close>.
  When the store is not empty both boundaries snap, to entries \<open>low\<close> and \<open>high\<close> of the
  store; the call returns null when \<open>high.index \<le> low.index\<close>; when
  \<open>low.index < high.index\<close> \<^emph>\<open>and the two snapshots have the same length\<close> it returns the
  data \<open>high.data[k] - low.data[k]\<close> with the range \<open>(low.index, high.index)\<close>; when
  \<open>low.index < high.index\<close> and the lengths differ it throws the error of
  \<^verbatim>\<open>combineRanges\<close>.
\<close>

theorem SnappingCache_getCombined_by_snapped_bounds:
  "(SnappingCache_store c d = [] \<and> \<not> inherited (realm c) d \<longrightarrow>
      SnappingCache_getCombined start stop d c = (Inr None, [])) \<and>
   (SnappingCache_store c d \<noteq> [] \<longrightarrow>
      (\<exists>low high.
         SnappingCache_get start d c = Inr (Some low) \<and>
         SnappingCache_get stop d c = Inr (Some high) \<and>
         low \<in> set (SnappingCache_store c d) \<and> high \<in> set (SnappingCache_store c d) \<and>
         (index high \<le> index low \<longrightarrow>
            SnappingCache_getCombined start stop d c = (Inr None, [])) \<and>
         (index low < index high \<and> length (data low) = length (data high) \<longrightarrow>
            fst (SnappingCache_getCombined start stop d c) =
              Inr (Some \<lparr>cdata = map2 (-) (data high) (data low),
                         crange = (index low, index high)\<rparr>) \<and>
            length (map2 (-) (data high) (data low)) = length (data low) \<and>
            (\<forall>k < length (data low).
               map2 (-) (data high) (data low) ! k = data high ! k - data low ! k)) \<and>
         (index low < index high \<and> length (data low) \<noteq> length (data high) \<longrightarrow>
            SnappingCache_getCombined start stop d c =
              (Inl (Error ''low and high have to have the same length''), []))))"
  (is "(?E \<longrightarrow> ?N) \<and> (?S \<longrightarrow> ?R)")
proof -
  have e: ?N if ?E
    using that by (simp add: SnappingCache_getCombined_empty)
  have s: ?R if ne: ?S
  proof -
    from SnappingCache_get_in_store [OF ne, of start]
    obtain low where low: "SnappingCache_get start d c = Inr (Some low)"
      "low \<in> set (SnappingCache_store c d)" by blast
    from SnappingCache_get_in_store [OF ne, of stop]
    obtain high where high: "SnappingCache_get stop d c = Inr (Some high)"
      "high \<in> set (SnappingCache_store c d)" by blast
    have 1: "index high \<le> index low \<longrightarrow>
        SnappingCache_getCombined start stop d c = (Inr None, [])"
      using SnappingCache_getCombined_not_above [OF low(1) high(1)] by simp
    have 2: "index low < index high \<and> length (data low) = length (data high) \<longrightarrow>
        fst (SnappingCache_getCombined start stop d c) =
          Inr (Some \<lparr>cdata = map2 (-) (data high) (data low), crange = (index low, index high)\<rparr>) \<and>
        length (map2 (-) (data high) (data low)) = length (data low) \<and>
        (\<forall>k < length (data low).
           map2 (-) (data high) (data low) ! k = data high ! k - data low ! k)"
      using SnappingCache_getCombined_hit [OF low(1) high(1)] by simp
    have 3: "index low < index high \<and> length (data low) \<noteq> length (data high) \<longrightarrow>
        SnappingCache_getCombined start stop d c =
          (Inl (Error ''low and high have to have the same length''), [])"
      using SnappingCache_getCombined_throw [OF low(1) high(1)] by simp
    from low high 1 2 3 show ?R by blast
  qed
  from e s show ?thesis by blast
qed

text \<open>
  The claim as first stated fails: after \<^verbatim>\<open>set(0, "a", [1])\<close> and
  \<^verbatim>\<open>set(10, "a", [1, 2])\<close> the boundaries \<open>0\<close> and \<open>10\<close> snap to entries with
  \<open>0 < 10\<close>, and \<^verbatim>\<open>getCombined(0, 10, "a")\<close> throws instead of returning a result.
\<close>

theorem SnappingCache_getCombined_counterexample:
  "SnappingCache_get 0 ''a''
     (SnappingCache_after realm0 [''a''] [Set 0 ''a'' [1], Set 10 ''a'' [1, 2]])
     = Inr (Some \<lparr>index = 0, data = [1]\<rparr>) \<and>
   SnappingCache_get 10 ''a''
     (SnappingCache_after realm0 [''a''] [Set 0 ''a'' [1], Set 10 ''a'' [1, 2]])
     = Inr (Some \<lparr>index = 10, data = [1, 2]\<rparr>) \<and>
   SnappingCache_getCombined 0 10 ''a''
       (SnappingCache_after realm0 [''a''] [Set 0 ''a'' [1], Set 10 ''a'' [1, 2]]) =
     (Inl (Error ''low and high have to have the same length''), [])"
  by code_simp

text \<open>
  The amended statement on the second scenario of the specification: \<open>10\<close> snaps to \<open>0\<close>
  and \<open>90\<close> to \<open>100\<close>, giving \<open>[40, 60]\<close> over \<open>(0, 100)\<close>; \<open>40\<close> and \<open>60\<close> both snap to
  \<open>50\<close>, giving null although \<open>40 < 60\<close>; the dimension \<open>c\<close>, never set, gives null.
\<close>

theorem SnappingCache_getCombined_by_snapped_bounds_witness:
  "SnappingCache_store
     (SnappingCache_after realm0 [''a'', ''b'']
        [Set 0 ''a'' [10, 20], Set 100 ''a'' [50, 80], Set 0 ''b'' [5, 5], Set 100 ''b'' [9, 9],
         Set 50 ''a'' [30, 50]]) ''a'' \<noteq> [] \<and>
   SnappingCache_get 10 ''a''
     (SnappingCache_after realm0 [''a'', ''b'']
        [Set 0 ''a'' [10, 20], Set 100 ''a'' [50, 80], Set 0 ''b'' [5, 5], Set 100 ''b'' [9, 9],
         Set 50 ''a'' [30, 50]]) = Inr (Some \<lparr>index = 0, data = [10, 20]\<rparr>) \<and>
   SnappingCache_get 90 ''a''
     (SnappingCache_after realm0 [''a'', ''b'']
        [Set 0 ''a'' [10, 20], Set 100 ''a'' [50, 80], Set 0 ''b'' [5, 5], Set 100 ''b'' [9, 9],
         Set 50 ''a'' [30, 50]]) = Inr (Some \<lparr>index = 100, data = [50, 80]\<rparr>) \<and>
   fst (SnappingCache_getCombined 10 90 ''a''
     (SnappingCache_after realm0 [''a'', ''b'']
        [Set 0 ''a'' [10, 20], Set 100 ''a'' [50, 80], Set 0 ''b'' [5, 5], Set 100 ''b'' [9, 9],
         Set 50 ''a'' [30, 50]])) = Inr (Some \<lparr>cdata = [40, 60], crange = (0, 100)\<rparr>) \<and>
   SnappingCache_getCombined 40 60 ''a''
     (SnappingCache_after realm0 [''a'', ''b'']
        [Set 0 ''a'' [10, 20], Set 100 ''a'' [50, 80], Set 0 ''b'' [5, 5], Set 100 ''b'' [9, 9],
         Set 50 ''a'' [30, 50]]) = (Inr None, []) \<and>
   SnappingCache_store
     (SnappingCache_after realm0 [''a'', ''b'']
        [Set 0 ''a'' [10, 20], Set 100 ''a'' [50, 80], Set 0 ''b'' [5, 5], Set 100 ''b'' [9, 9],
         Set 50 ''a'' [30, 50]]) ''c'' = [] \<and>
   \<not> inherited
       (realm (SnappingCache_after realm0 [''a'', ''b'']
          [Set 0 ''a'' [10, 20], Set 100 ''a'' [50, 80], Set 0 ''b'' [5, 5], Set 100 ''b'' [9, 9],
           Set 50 ''a'' [30, 50]])) ''c'' \<and>
   SnappingCache_getCombined 10 90 ''c''
     (SnappingCache_after realm0 [''a'', ''b'']
        [Set 0 ''a'' [10, 20], Set 100 ''a'' [50, 80], Set 0 ''b'' [5, 5], Set 100 ''b'' [9, 9],
         Set 50 ''a'' [30, 50]]) = (Inr None, [])"
proof -
  let ?c = "SnappingCache_after realm0 [''a'', ''b'']
        [Set 0 ''a'' [10, 20], Set 100 ''a'' [50, 80], Set 0 ''b'' [5, 5], Set 100 ''b'' [9, 9],
         Set 50 ''a'' [30, 50]]"
  have ne: "SnappingCache_store ?c ''a'' \<noteq> []" by code_simp
  have em: "SnappingCache_store ?c ''c'' = []" by code_simp
  have ni: "\<not> inherited (realm ?c) ''c''" by code_simp
  have g10: "SnappingCache_get 10 ''a'' ?c = Inr (Some \<lparr>index = 0, data = [10, 20]\<rparr>)"
    by code_simp
  have g90: "SnappingCache_get 90 ''a'' ?c = Inr (Some \<lparr>index = 100, data = [50, 80]\<rparr>)"
    by code_simp
  have g40: "SnappingCache_get 40 ''a'' ?c = Inr (Some \<lparr>index = 50, data = [30, 50]\<rparr>)"
    by code_simp
  have g60: "SnappingCache_get 60 ''a'' ?c = Inr (Some \<lparr>index = 50, data = [30, 50]\<rparr>)"
    by code_simp
  from SnappingCache_getCombined_by_snapped_bounds [of ?c "''a''" 10 90]
       SnappingCache_getCombined_by_snapped_bounds [of ?c "''a''" 40 60]
       SnappingCache_getCombined_by_snapped_bounds [of ?c "''c''" 10 90]
       ne em ni g10 g90 g40 g60
  show ?thesis by simp
qed

text \<open>
  Claim C10. On the exact cache, right after \<^verbatim>\<open>set(i, d, s)\<close> the zero-width query
  \<^verbatim>\<open>getCombined(i, i, d)\<close> returns the range \<open>(i, i)\<close> with as many zeros as \<open>s\<close> has
  buckets, and logs nothing, whatever the cache held and whatever the name of \<open>d\<close>. The
  snapping cache returns a result for no zero-width query; it returns null for every
  dimension it has a store for and for every dimension whose name no object inherits a
  property under.
\<close>

theorem SimpleCache_getCombined_zero_width:
  "SimpleCache_getCombined i i d (SimpleCache_set i d s c) =
     (Inr (Some \<lparr>cdata = replicate (length s) 0, crange = (i, i)\<rparr>), []) \<and>
   \<not> (\<exists>x. fst (SnappingCache_getCombined i i d c') = Inr (Some x)) \<and>
   (SnappingCache_store c' d \<noteq> [] \<or> \<not> inherited (realm c') d \<longrightarrow>
      SnappingCache_getCombined i i d c' = (Inr None, []))"
proof -
  have z: "map2 (-) s s = replicate (length s) 0"
    by (induction s) simp_all
  have g: "SimpleCache_get i d (SimpleCache_set i d s c) = Inr (Some s)"
    by (rule SimpleCache_get_set_same)
  show ?thesis
    using SimpleCache_getCombined_hit [OF g g] SnappingCache_getCombined_same [of i d c']
      SnappingCache_getCombined_same_plain [of c' d i]
    by (simp add: z)
qed

text \<open>
  After \<^verbatim>\<open>set(5, "a", [7, 8])\<close> the query \<^verbatim>\<open>getCombined(5, 5, "a")\<close> returns \<open>[0, 0]\<close> over
  \<open>(5, 5)\<close> on the exact cache and null on the snapping cache.
\<close>

theorem SimpleCache_getCombined_zero_width_witness:
  "SimpleCache_getCombined 5 5 ''a'' (SimpleCache_set 5 ''a'' [7, 8] (Cache_new realm0 [''a''])) =
     (Inr (Some \<lparr>cdata = [0, 0], crange = (5, 5)\<rparr>), []) \<and>
   SnappingCache_store (SnappingCache_after realm0 [''a''] [Set 5 ''a'' [7, 8]]) ''a'' \<noteq> [] \<and>
   SnappingCache_getCombined 5 5 ''a'' (SnappingCache_after realm0 [''a''] [Set 5 ''a'' [7, 8]]) =
     (Inr None, [])"
proof -
  have ne: "SnappingCache_store (SnappingCache_after realm0 [''a''] [Set 5 ''a'' [7, 8]]) ''a'' \<noteq> []"
    by code_simp
  from SimpleCache_getCombined_zero_width
         [of 5 "''a''" "[7, 8]" "Cache_new realm0 [''a'']"
             "SnappingCache_after realm0 [''a''] [Set 5 ''a'' [7, 8]]"] ne
  show ?thesis by (simp add: numeral_2_eq_2)
qed


subsection \<open>hasFullData\<close>

text \<open>
  On dimensions whose names no object inherits a property under, and at a coordinate at
  which nothing was written onto \<^verbatim>\<open>Object.prototype\<close>, \<^verbatim>\<open>hasFullData\<close> is true exactly when
  every declared dimension has data stored at that coordinate.
\<close>

lemma SimpleCache_hasFullData_loop_plain:
  "\<forall>d \<in> set ds. \<not> inherited (realm c) d \<Longrightarrow> prototype (realm c) i = None \<Longrightarrow>
   SimpleCache_hasFullData_loop i ds c = Inr (\<forall>d \<in> set ds. SimpleCache_stored c d i \<noteq> None)"
  by (induction ds) (auto simp: SimpleCache_get_plain split: option.splits)

lemma SnappingCache_get_exact_iff:
  assumes "sorted (map index (SnappingCache_store c d))" "\<not> inherited (realm c) d"
  shows "(\<exists>e. SnappingCache_get i d c = Inr (Some e) \<and> index e = i) \<longleftrightarrow>
         (\<exists>e \<in> set (SnappingCache_store c d). index e = i)"
proof (cases "SnappingCache_store c d = []")
  case True
  with assms(2) show ?thesis by (simp add: SnappingCache_get_empty)
next
  case False
  from SnappingCache_get_nearest [OF False assms(1), of i]
  obtain e where e: "SnappingCache_get i d c = Inr (Some e)" "e \<in> set (SnappingCache_store c d)"
    "\<forall>e' \<in> set (SnappingCache_store c d). \<bar>index e - i\<bar> \<le> \<bar>index e' - i\<bar>"
    by blast
  show ?thesis
  proof
    assume "\<exists>e. SnappingCache_get i d c = Inr (Some e) \<and> index e = i"
    with e show "\<exists>e \<in> set (SnappingCache_store c d). index e = i" by auto
  next
    assume "\<exists>e \<in> set (SnappingCache_store c d). index e = i"
    then obtain e' where "e' \<in> set (SnappingCache_store c d)" "index e' = i" by blast
    with e(3) have "index e = i" by fastforce
    with e(1) show "\<exists>e. SnappingCache_get i d c = Inr (Some e) \<and> index e = i" by simp
  qed
qed

lemma SnappingCache_get_returns:
  "\<not> inherited (realm c) d \<Longrightarrow> \<exists>x. SnappingCache_get i d c = Inr x"
  using SnappingCache_get_empty [of c d i] SnappingCache_get_in_store [of c d i]
  by (cases "SnappingCache_store c d = []") auto

lemma SnappingCache_hasFullData_loop_plain:
  "\<forall>d \<in> set ds. \<not> inherited (realm c) d \<Longrightarrow>
   SnappingCache_hasFullData_loop i ds c =
     Inr (\<forall>d \<in> set ds. \<exists>e. SnappingCache_get i d c = Inr (Some e) \<and> index e = i)"
proof (induction ds)
  case Nil
  show ?case by simp
next
  case (Cons d ds)
  then obtain x where "SnappingCache_get i d c = Inr x"
    using SnappingCache_get_returns [of c d i] by auto
  with Cons show ?case
    by (cases x) auto
qed

lemma SimpleCache_hasFullData_plain:
  assumes "\<forall>d \<in> set dims. \<not> inherited (realm (SimpleCache_after r dims calls)) d"
    and "prototype (realm (SimpleCache_after r dims calls)) i = None"
  shows "SimpleCache_hasFullData i (SimpleCache_after r dims calls) =
     Inr (\<forall>d \<in> set dims. last_set calls i d \<noteq> None)"
proof -
  have "SimpleCache_hasFullData i (SimpleCache_after r dims calls) =
      Inr (\<forall>d \<in> set dims. SimpleCache_stored (SimpleCache_after r dims calls) d i \<noteq> None)"
    using assms by (simp add: SimpleCache_hasFullData_def SimpleCache_hasFullData_loop_plain)
  also have "(\<forall>d \<in> set dims. SimpleCache_stored (SimpleCache_after r dims calls) d i \<noteq> None) \<longleftrightarrow>
      (\<forall>d \<in> set dims. last_set calls i d \<noteq> None)"
    using assms(1) by (simp add: SimpleCache_stored_after)
  finally show ?thesis .
qed

lemma SnappingCache_hasFullData_plain:
  assumes "\<forall>d \<in> set dims. \<not> inherited (realm (SnappingCache_after r dims calls)) d"
  shows "SnappingCache_hasFullData i (SnappingCache_after r dims calls) =
     Inr (\<forall>d \<in> set dims. \<exists>e \<in> set (SnappingCache_store (SnappingCache_after r dims calls) d).
            index e = i)"
proof -
  have "SnappingCache_hasFullData i (SnappingCache_after r dims calls) =
      Inr (\<forall>d \<in> set dims. \<exists>e. SnappingCache_get i d (SnappingCache_after r dims calls) =
             Inr (Some e) \<and> index e = i)"
    using assms by (simp add: SnappingCache_hasFullData_def SnappingCache_hasFullData_loop_plain)
  also have "(\<forall>d \<in> set dims. \<exists>e. SnappingCache_get i d (SnappingCache_after r dims calls) =
             Inr (Some e) \<and> index e = i) \<longleftrightarrow>
      (\<forall>d \<in> set dims. \<exists>e \<in> set (SnappingCache_store (SnappingCache_after r dims calls) d).
            index e = i)"
    using assms by (intro ball_cong refl SnappingCache_get_exact_iff sorted_SnappingCache_after) simp
  finally show ?thesis .
qed

text \<open>
  Claim C6 fails on the code. The exact cache declared with \<^verbatim>\<open>toString\<close> answers true at
  \<open>0\<close> after \<^verbatim>\<open>set(0, "toString", [1])\<close> and \<^verbatim>\<open>invalidate()\<close>, when it stores nothing: the
  snapshot was written onto the function \<^verbatim>\<open>Object.prototype.toString\<close>, where \<^verbatim>\<open>get\<close> still
  finds it. Declared with \<open>a\<close>, it answers true at \<open>0\<close> after \<^verbatim>\<open>set(0, "__proto__", [1])\<close>
  alone, \<open>a\<close> never set: the snapshot was written onto \<^verbatim>\<open>Object.prototype\<close>, and every
  store inherits it. The snapping cache declared with \<^verbatim>\<open>constructor\<close> throws instead of
  answering false on a new cache.
\<close>

theorem hasFullData_inherited_names:
  "SimpleCache_hasFullData 0
     (SimpleCache_after realm0 [''toString''] [Set 0 ''toString'' [1], Invalidate]) = Inr True \<and>
   SimpleCache_stored
     (SimpleCache_after realm0 [''toString''] [Set 0 ''toString'' [1], Invalidate])
     ''toString'' 0 = None \<and>
   live_calls [Set 0 ''toString'' [1], Invalidate] = [] \<and>
   SimpleCache_hasFullData 0
     (SimpleCache_after realm0 [''a''] [Set 0 ''__proto__'' [1], Set 5 ''a'' [3]]) = Inr True \<and>
   SimpleCache_stored
     (SimpleCache_after realm0 [''a''] [Set 0 ''__proto__'' [1], Set 5 ''a'' [3]]) ''a'' 0 = None \<and>
   SnappingCache_hasFullData 0 (SnappingCache_after realm0 [''constructor''] []) = Inl TypeError \<and>
   SnappingCache_store (SnappingCache_after realm0 [''constructor''] []) ''constructor'' = []"
  by code_simp

subsection \<open>invalidate\<close>

lemma invalidate_is_new: "invalidate c = Cache_new (realm c) (dimensions c)"
  by (simp add: invalidate_def Cache_new_def)

lemma getDimensions_simps [simp]:
  "getDimensions (Cache_new r dims) = []"
  "getDimensions (invalidate c) = []"
  by (simp_all add: getDimensions_def Object_keys_def List.map_filter_def)

lemma getAllCombined_no_dimensions:
  "getDimensions c = [] \<Longrightarrow> getAllCombined gc c = (Inr [], [])"
  by (simp add: getAllCombined_def List.map_filter_def)

lemma SimpleCache_get_invalidate:
  "\<not> inherited (realm c) d \<Longrightarrow> SimpleCache_get i d (invalidate c) = Inr None"
  by (simp add: SimpleCache_get_def property_plain)

lemma SimpleCache_hasFullData_invalidate:
  "dimensions c \<noteq> [] \<Longrightarrow> \<forall>d \<in> set (dimensions c). \<not> inherited (realm c) d \<Longrightarrow>
   SimpleCache_hasFullData i (invalidate c) = Inr False"
  by (cases "dimensions c") (simp_all add: SimpleCache_hasFullData_def SimpleCache_get_invalidate)

lemma SnappingCache_hasFullData_invalidate:
  "dimensions c \<noteq> [] \<Longrightarrow> \<forall>d \<in> set (dimensions c). \<not> inherited (realm c) d \<Longrightarrow>
   SnappingCache_hasFullData i (invalidate c) = Inr False"
  by (cases "dimensions c") (simp_all add: SnappingCache_hasFullData_def SnappingCache_get_empty)

text \<open>
  Claim C5, as amended. For both strategies, right after \<^verbatim>\<open>invalidate()\<close> the cache is the
  one the constructor builds for the same declared dimensions, whatever was set before,
  and \<^verbatim>\<open>getAllCombined\<close> returns the empty sequence. \<^verbatim>\<open>getCombined\<close> returns null for all
  coordinates and for every dimension whose name no object inherits a property under.
  \<^verbatim>\<open>hasFullData\<close> returns false for every coordinate \<^emph>\<open>when at least one dimension is
  declared\<close>, none of the declared names being one that objects inherit a property under;
  with no declared dimension it returns true.
\<close>

theorem invalidate_discards_everything:
  "invalidate c = Cache_new (realm c) (dimensions c) \<and>
   invalidate c' = Cache_new (realm c') (dimensions c') \<and>
   getDimensions (invalidate c) = [] \<and>
   getDimensions (invalidate c') = [] \<and>
   SimpleCache_stored (invalidate c) d i = None \<and>
   SnappingCache_store (invalidate c') d = [] \<and>
   (\<not> inherited (realm c) d \<longrightarrow>
      SimpleCache_getCombined start stop d (invalidate c) = (Inr None, [])) \<and>
   (\<not> inherited (realm c') d \<longrightarrow>
      SnappingCache_getCombined start stop d (invalidate c') = (Inr None, [])) \<and>
   SimpleCache_getAllCombined start stop (invalidate c) = (Inr [], []) \<and>
   SnappingCache_getAllCombined start stop (invalidate c') = (Inr [], []) \<and>
   (dimensions c \<noteq> [] \<and> (\<forall>d' \<in> set (dimensions c). \<not> inherited (realm c) d') \<longrightarrow>
      SimpleCache_hasFullData i (invalidate c) = Inr False) \<and>
   (dimensions c' \<noteq> [] \<and> (\<forall>d' \<in> set (dimensions c'). \<not> inherited (realm c') d') \<longrightarrow>
      SnappingCache_hasFullData i (invalidate c') = Inr False) \<and>
   (dimensions c = [] \<longrightarrow> SimpleCache_hasFullData i (invalidate c) = Inr True) \<and>
   (dimensions c' = [] \<longrightarrow> SnappingCache_hasFullData i (invalidate c') = Inr True)"
proof (intro conjI impI)
  show "invalidate c = Cache_new (realm c) (dimensions c)" by (rule invalidate_is_new)
  show "invalidate c' = Cache_new (realm c') (dimensions c')" by (rule invalidate_is_new)
  show "getDimensions (invalidate c) = []" by simp
  show "getDimensions (invalidate c') = []" by simp
  show "SimpleCache_stored (invalidate c) d i = None" by simp
  show "SnappingCache_store (invalidate c') d = []" by simp
  show "SimpleCache_getCombined start stop d (invalidate c) = (Inr None, [])"
    if "\<not> inherited (realm c) d"
    using that by (simp add: SimpleCache_getCombined_miss SimpleCache_get_invalidate)
  show "SnappingCache_getCombined start stop d (invalidate c') = (Inr None, [])"
    if "\<not> inherited (realm c') d"
    using that by (simp add: SnappingCache_getCombined_empty)
  show "SimpleCache_getAllCombined start stop (invalidate c) = (Inr [], [])"
    by (simp add: SimpleCache_getAllCombined_def getAllCombined_no_dimensions)
  show "SnappingCache_getAllCombined start stop (invalidate c') = (Inr [], [])"
    by (simp add: SnappingCache_getAllCombined_def getAllCombined_no_dimensions)
  show "SimpleCache_hasFullData i (invalidate c) = Inr False"
    if "dimensions c \<noteq> [] \<and> (\<forall>d' \<in> set (dimensions c). \<not> inherited (realm c) d')"
    using that by (simp add: SimpleCache_hasFullData_invalidate)
  show "SnappingCache_hasFullData i (invalidate c') = Inr False"
    if "dimensions c' \<noteq> [] \<and> (\<forall>d' \<in> set (dimensions c'). \<not> inherited (realm c') d')"
    using that by (simp add: SnappingCache_hasFullData_invalidate)
  show "SimpleCache_hasFullData i (invalidate c) = Inr True" if "dimensions c = []"
    using that by (simp add: SimpleCache_hasFullData_def)
  show "SnappingCache_hasFullData i (invalidate c') = Inr True" if "dimensions c' = []"
    using that by (simp add: SnappingCache_hasFullData_def)
qed

text \<open>
  The claim as first stated fails: on a cache declared with no dimension
  \<^verbatim>\<open>hasFullData(0)\<close> is true right after \<^verbatim>\<open>invalidate()\<close>, for both strategies.
\<close>

theorem invalidate_hasFullData_counterexample:
  "SimpleCache_hasFullData 0 (invalidate (SimpleCache_after realm0 [] [Set 0 ''a'' [1]])) =
     Inr True \<and>
   SnappingCache_hasFullData 0 (invalidate (SnappingCache_after realm0 [] [Set 0 ''a'' [1]])) =
     Inr True"
  by code_simp

text \<open>The amended statement on a cache declared with the dimension \<open>a\<close>.\<close>

theorem invalidate_discards_everything_witness:
  "\<not> inherited (realm (SimpleCache_after realm0 [''a''] [Set 0 ''a'' [1], Set 5 ''a'' [2]])) ''a'' \<and>
   \<not> inherited (realm (SnappingCache_after realm0 [''a''] [Set 0 ''a'' [1], Set 5 ''a'' [2]])) ''a'' \<and>
   SimpleCache_getCombined 0 5 ''a''
     (invalidate (SimpleCache_after realm0 [''a''] [Set 0 ''a'' [1], Set 5 ''a'' [2]])) =
     (Inr None, []) \<and>
   SnappingCache_getCombined 0 5 ''a''
     (invalidate (SnappingCache_after realm0 [''a''] [Set 0 ''a'' [1], Set 5 ''a'' [2]])) =
     (Inr None, []) \<and>
   SimpleCache_hasFullData 0
     (invalidate (SimpleCache_after realm0 [''a''] [Set 0 ''a'' [1], Set 5 ''a'' [2]])) =
     Inr False \<and>
   SnappingCache_hasFullData 0
     (invalidate (SnappingCache_after realm0 [''a''] [Set 0 ''a'' [1], Set 5 ''a'' [2]])) =
     Inr False"
proof -
  let ?c = "SimpleCache_after realm0 [''a''] [Set 0 ''a'' [1], Set 5 ''a'' [2]]"
  let ?c' = "SnappingCache_after realm0 [''a''] [Set 0 ''a'' [1], Set 5 ''a'' [2]]"
  have d: "dimensions ?c = [''a'']" "dimensions ?c' = [''a'']"
    by simp_all
  have n: "\<not> inherited (realm ?c) ''a''" "\<not> inherited (realm ?c') ''a''"
    by code_simp+
  from invalidate_discards_everything [of ?c ?c' "''a''" 0 0 5] d n
  show ?thesis by simp
qed


subsection \<open>The dimensions of the store\<close>

lemma Combined_eta [simp]: "\<lparr>cdata = cdata r, crange = crange r\<rparr> = (r::Combined)"
  by (cases r) simp

lemma set_Object_keys [simp]: "set (Object_keys ks) = set ks"
  by (auto simp: Object_keys_def List.map_filter_def image_iff split: option.splits)







subsection \<open>getAllCombined\<close>






















end
